theory Spec2Isabelle
  imports Complex_Main
begin

section \<open>Knit grid: colour math, edge detection, prominence, glyphs and the frame renderer\<close>

text \<open>
  A shallow embedding of the mosaic pipeline of the repository: \<^verbatim>\<open>lib/palette.ts\<close>,
  \<^verbatim>\<open>lib/mapping.ts\<close>, \<^verbatim>\<open>lib/glyphs.ts\<close>, \<^verbatim>\<open>lib/sampler.ts\<close> and \<^verbatim>\<open>lib/render.ts\<close>.

  A JavaScript \<^verbatim>\<open>number\<close> that holds a colour channel, a length or a coordinate is a
  \<^typ>\<open>real\<close>: arithmetic is exact, rounding of IEEE doubles is not modelled (the three
  colour transforms are modelled a second time on numbers with \<^verbatim>\<open>NaN\<close>, infinities and
  rounding, for their clamping law). Loop counters and array indices are \<^typ>\<open>int\<close>. The value \<^verbatim>\<open>undefined\<close> that an array read
  yields outside the array, and the \<^verbatim>\<open>NaN\<close> that arithmetic makes of it, is \<open>None\<close>.
\<close>

subsection \<open>types.ts\<close>

type_synonym RGB = "real \<times> real \<times> real"

datatype GlyphType = Diamond | Square | Circle

subsection \<open>JavaScript primitives\<close>

text \<open>\<^verbatim>\<open>xs[i]\<close>: the element, or \<^verbatim>\<open>undefined\<close> outside the array.\<close>

definition arrayGet :: "'a list \<Rightarrow> int \<Rightarrow> 'a option" where
  "arrayGet xs i = (if 0 \<le> i \<and> i < int (length xs) then Some (xs ! nat i) else None)"

text \<open>\<^verbatim>\<open>a % b\<close> on integers: the remainder of the truncating division, with the sign of \<open>a\<close>.\<close>

definition jsRem :: "int \<Rightarrow> int \<Rightarrow> int" where
  "jsRem a b = (if a < 0 then - ((- a) mod \<bar>b\<bar>) else a mod \<bar>b\<bar>)"

text \<open>\<^verbatim>\<open>Math.round\<close>: the nearest integer, a tie going up.\<close>

definition mathRound :: "real \<Rightarrow> int" where
  "mathRound v = \<lfloor>v + 1 / 2\<rfloor>"

subsection \<open>palette.ts\<close>

definition ACTIVE_PALETTE :: "RGB list" where
  "ACTIVE_PALETTE =
     [(0 / 255, 82 / 255, 176 / 255),
      (1 / 255, 36 / 255, 100 / 255),
      (255 / 255, 242 / 255, 2 / 255)]"

definition srgbToLinear :: "real \<Rightarrow> real" where
  "srgbToLinear c = (if c \<le> 0.04045 then c / 12.92 else ((c + 0.055) / 1.055) powr 2.4)"

fun toLinear :: "RGB \<Rightarrow> RGB" where
  "toLinear (r, g, b) = (srgbToLinear r, srgbToLinear g, srgbToLinear b)"

definition colorDistance :: "RGB \<Rightarrow> RGB \<Rightarrow> real" where
  "colorDistance a b =
     (case (toLinear a, toLinear b) of
        ((ar, ag, ab), (br, bg, bb)) \<Rightarrow>
          (let dr = ar - br; dg = ag - bg; db = ab - bb
           in sqrt (dr * dr + dg * dg + db * db)))"

text \<open>
  One turn of the loop of \<^verbatim>\<open>nearestBrandColor\<close>. The running minimum starts at
  \<^verbatim>\<open>Infinity\<close>, here \<open>None\<close>, below which every distance lies.
\<close>

fun nearestStep :: "RGB \<Rightarrow> real option \<times> RGB \<Rightarrow> RGB \<Rightarrow> real option \<times> RGB" where
  "nearestStep rgb (minDist, nearest) color =
     (let dist = colorDistance rgb color
      in if (case minDist of None \<Rightarrow> True | Some m \<Rightarrow> dist < m)
         then (Some dist, color) else (minDist, nearest))"

definition nearestBrandColor :: "RGB \<Rightarrow> RGB" where
  "nearestBrandColor rgb =
     snd (foldl (nearestStep rgb) (None, ACTIVE_PALETTE ! 0) ACTIVE_PALETTE)"

definition applyPaletteMix :: "RGB \<Rightarrow> real \<Rightarrow> RGB" where
  "applyPaletteMix rgb mix = nearestBrandColor rgb"

definition BAYER_4X4 :: "real list" where
  "BAYER_4X4 =
     [0 / 16, 8 / 16, 2 / 16, 10 / 16,
      12 / 16, 4 / 16, 14 / 16, 6 / 16,
      3 / 16, 11 / 16, 1 / 16, 9 / 16,
      15 / 16, 7 / 16, 13 / 16, 5 / 16]"

definition bayerIndex :: "int \<Rightarrow> int \<Rightarrow> int" where
  "bayerIndex x y = (let bx = jsRem x 4; byy = jsRem y 4 in byy * 4 + bx)"

definition bayer4 :: "int \<Rightarrow> int \<Rightarrow> real option" where
  "bayer4 x y = arrayGet BAYER_4X4 (bayerIndex x y)"

text \<open>
  \<^verbatim>\<open>applyDither\<close>. Where the table read is \<^verbatim>\<open>undefined\<close> the offset is \<^verbatim>\<open>NaN\<close> and
  so is each of the three channels returned: the result \<open>None\<close>.
\<close>

definition clamp01 :: "real \<Rightarrow> real" where
  "clamp01 v = max 0 (min 1 v)"

fun applyDither :: "RGB \<Rightarrow> real \<Rightarrow> int \<Rightarrow> int \<Rightarrow> RGB option" where
  "applyDither (r, g, b) amount x y =
     (if amount \<le> 0 then Some (r, g, b)
      else case bayer4 x y of
        None \<Rightarrow> None
      | Some threshold \<Rightarrow>
          (let ditherValue = (threshold - 0.5) * amount * 0.1
           in Some (clamp01 (r + ditherValue), clamp01 (g + ditherValue),
                    clamp01 (b + ditherValue))))"

fun applyContrast :: "RGB \<Rightarrow> real \<Rightarrow> RGB" where
  "applyContrast (r, g, b) contrast =
     (if contrast = 1.0 then (r, g, b)
      else (clamp01 ((r - 0.5) * contrast + 0.5),
            clamp01 ((g - 0.5) * contrast + 0.5),
            clamp01 ((b - 0.5) * contrast + 0.5)))"

fun applySaturation :: "RGB \<Rightarrow> real \<Rightarrow> RGB" where
  "applySaturation (r, g, b) saturation =
     (if saturation = 1.0 then (r, g, b)
      else (let luma = 0.2126 * r + 0.7152 * g + 0.0722 * b
            in (clamp01 (luma + (r - luma) * saturation),
                clamp01 (luma + (g - luma) * saturation),
                clamp01 (luma + (b - luma) * saturation))))"

subsection \<open>palette.ts on JavaScript numbers\<close>

text \<open>
  The three transforms once more, on numbers as JavaScript has them: a number is
  \<^verbatim>\<open>NaN\<close>, an infinity or a finite value, and the result of an operation on finite values is
  its exact result rounded to a double, \<open>fl\<close>, which is an infinity where it overflows.
  The rounding \<open>fl\<close> is a parameter. The operations on \<^verbatim>\<open>NaN\<close> and the infinities are those
  of IEEE 754; the sign of a zero is not kept.
\<close>

datatype jsnum = NaN | NegInf | Fin real | PosInf

fun jsNeg :: "jsnum \<Rightarrow> jsnum" where
  "jsNeg NaN = NaN"
| "jsNeg NegInf = PosInf"
| "jsNeg (Fin x) = Fin (- x)"
| "jsNeg PosInf = NegInf"

fun jsAdd :: "(real \<Rightarrow> jsnum) \<Rightarrow> jsnum \<Rightarrow> jsnum \<Rightarrow> jsnum" where
  "jsAdd fl (Fin x) (Fin y) = fl (x + y)"
| "jsAdd fl NaN b = NaN"
| "jsAdd fl a NaN = NaN"
| "jsAdd fl PosInf NegInf = NaN"
| "jsAdd fl NegInf PosInf = NaN"
| "jsAdd fl PosInf b = PosInf"
| "jsAdd fl a PosInf = PosInf"
| "jsAdd fl NegInf b = NegInf"
| "jsAdd fl a NegInf = NegInf"

definition jsSub :: "(real \<Rightarrow> jsnum) \<Rightarrow> jsnum \<Rightarrow> jsnum \<Rightarrow> jsnum" where
  "jsSub fl a b = jsAdd fl a (jsNeg b)"

fun jsSign :: "jsnum \<Rightarrow> int" where
  "jsSign NaN = 0"
| "jsSign NegInf = - 1"
| "jsSign (Fin x) = (if x < 0 then - 1 else if x = 0 then 0 else 1)"
| "jsSign PosInf = 1"

fun jsMul :: "(real \<Rightarrow> jsnum) \<Rightarrow> jsnum \<Rightarrow> jsnum \<Rightarrow> jsnum" where
  "jsMul fl (Fin x) (Fin y) = fl (x * y)"
| "jsMul fl NaN b = NaN"
| "jsMul fl a NaN = NaN"
| "jsMul fl a b =
     (let s = jsSign a * jsSign b
      in if s = 0 then NaN else if 0 < s then PosInf else NegInf)"

text \<open>\<^verbatim>\<open>a < b\<close>: false if an operand is \<^verbatim>\<open>NaN\<close>.\<close>

fun jsLess :: "jsnum \<Rightarrow> jsnum \<Rightarrow> bool" where
  "jsLess (Fin x) (Fin y) = (x < y)"
| "jsLess NaN b = False"
| "jsLess a NaN = False"
| "jsLess NegInf NegInf = False"
| "jsLess NegInf b = True"
| "jsLess a NegInf = False"
| "jsLess PosInf b = False"
| "jsLess a PosInf = True"

text \<open>\<^verbatim>\<open>a <= b\<close>, and \<^verbatim>\<open>Math.min\<close> and \<^verbatim>\<open>Math.max\<close>, which return \<^verbatim>\<open>NaN\<close> if an argument is.\<close>

definition jsLessEq :: "jsnum \<Rightarrow> jsnum \<Rightarrow> bool" where
  "jsLessEq a b = (jsLess a b \<or> (a \<noteq> NaN \<and> a = b))"

definition mathMin :: "jsnum \<Rightarrow> jsnum \<Rightarrow> jsnum" where
  "mathMin a b = (if a = NaN \<or> b = NaN then NaN else if jsLess b a then b else a)"

definition mathMax :: "jsnum \<Rightarrow> jsnum \<Rightarrow> jsnum" where
  "mathMax a b = (if a = NaN \<or> b = NaN then NaN else if jsLess a b then b else a)"

type_synonym jsRGB = "jsnum \<times> jsnum \<times> jsnum"

text \<open>\<^verbatim>\<open>Math.max(0, Math.min(1, v))\<close>\<close>

definition clampNum :: "jsnum \<Rightarrow> jsnum" where
  "clampNum v = mathMax (Fin 0) (mathMin (Fin 1) v)"

fun applyContrastNum :: "(real \<Rightarrow> jsnum) \<Rightarrow> jsRGB \<Rightarrow> jsnum \<Rightarrow> jsRGB" where
  "applyContrastNum fl (r, g, b) contrast =
     (if contrast = Fin 1.0 then (r, g, b)
      else (clampNum (jsAdd fl (jsMul fl (jsSub fl r (Fin 0.5)) contrast) (Fin 0.5)),
            clampNum (jsAdd fl (jsMul fl (jsSub fl g (Fin 0.5)) contrast) (Fin 0.5)),
            clampNum (jsAdd fl (jsMul fl (jsSub fl b (Fin 0.5)) contrast) (Fin 0.5))))"

fun applySaturationNum :: "(real \<Rightarrow> jsnum) \<Rightarrow> jsRGB \<Rightarrow> jsnum \<Rightarrow> jsRGB" where
  "applySaturationNum fl (r, g, b) saturation =
     (if saturation = Fin 1.0 then (r, g, b)
      else (let luma = jsAdd fl (jsAdd fl (jsMul fl (fl 0.2126) r) (jsMul fl (fl 0.7152) g))
                         (jsMul fl (fl 0.0722) b)
            in (clampNum (jsAdd fl luma (jsMul fl (jsSub fl r luma) saturation)),
                clampNum (jsAdd fl luma (jsMul fl (jsSub fl g luma) saturation)),
                clampNum (jsAdd fl luma (jsMul fl (jsSub fl b luma) saturation)))))"

text \<open>A threshold that is \<^verbatim>\<open>undefined\<close> makes \<^verbatim>\<open>threshold - 0.5\<close> the number \<^verbatim>\<open>NaN\<close>.\<close>

fun applyDitherNum :: "(real \<Rightarrow> jsnum) \<Rightarrow> jsRGB \<Rightarrow> jsnum \<Rightarrow> int \<Rightarrow> int \<Rightarrow> jsRGB" where
  "applyDitherNum fl (r, g, b) amount x y =
     (if jsLessEq amount (Fin 0) then (r, g, b)
      else (let threshold = (case bayer4 x y of None \<Rightarrow> NaN | Some t \<Rightarrow> Fin t);
                ditherValue = jsMul fl (jsMul fl (jsSub fl threshold (Fin 0.5)) amount) (fl 0.1)
            in (clampNum (jsAdd fl r ditherValue),
                clampNum (jsAdd fl g ditherValue),
                clampNum (jsAdd fl b ditherValue))))"

subsection \<open>mapping.ts\<close>

definition luminance :: "real \<Rightarrow> real \<Rightarrow> real \<Rightarrow> real" where
  "luminance r g b = 0.2126 * r + 0.7152 * g + 0.0722 * b"

definition sobelX :: "real list" where
  "sobelX = [-1, 0, 1, -2, 0, 2, -1, 0, 1]"

definition sobelY :: "real list" where
  "sobelY = [-1, -2, -1, 0, 0, 0, 1, 2, 1]"

text \<open>
  The pixel data of an \<^verbatim>\<open>ImageData\<close> is a \<^verbatim>\<open>Uint8ClampedArray\<close>, here a list of
  naturals. The luminance read at the clamped neighbour \<open>(px, py)\<close>; it is \<^verbatim>\<open>NaN\<close> as
  soon as one of the three bytes lies outside the array.
\<close>

definition lumaAt :: "nat list \<Rightarrow> int \<Rightarrow> int \<Rightarrow> int \<Rightarrow> int \<Rightarrow> real option" where
  "lumaAt data width height px py =
     (let clampedX = max 0 (min (width - 1) px);
          clampedY = max 0 (min (height - 1) py);
          idx = (clampedY * width + clampedX) * 4
      in case (arrayGet data idx, arrayGet data (idx + 1), arrayGet data (idx + 2)) of
           (Some r, Some g, Some b) \<Rightarrow>
             Some (luminance (real r / 255) (real g / 255) (real b / 255))
         | _ \<Rightarrow> None)"

text \<open>
  One turn of the inner kernel loop, on the pair \<open>(gx, gy)\<close>. A \<^verbatim>\<open>NaN\<close> luminance
  makes both sums \<^verbatim>\<open>NaN\<close> for good (also where the kernel entry is 0).
\<close>

definition kernelIdx :: "int \<Rightarrow> int \<Rightarrow> nat" where
  "kernelIdx ky kx = nat ((ky + 1) * 3 + (kx + 1))"

fun sobelTap ::
  "nat list \<Rightarrow> int \<Rightarrow> int \<Rightarrow> int \<Rightarrow> int \<Rightarrow> (real \<times> real) option \<Rightarrow> int \<times> int
     \<Rightarrow> (real \<times> real) option" where
  "sobelTap data width height x y acc (ky, kx) =
     (case (acc, lumaAt data width height (x + kx) (y + ky)) of
        (Some (gx, gy), Some luma) \<Rightarrow>
          Some (gx + luma * sobelX ! kernelIdx ky kx, gy + luma * sobelY ! kernelIdx ky kx)
      | _ \<Rightarrow> None)"

definition kernelTaps :: "(int \<times> int) list" where
  "kernelTaps = concat (map (\<lambda>ky. map (\<lambda>kx. (ky, kx)) [-1..1]) [-1..1])"

text \<open>The flag of one cell: a comparison with \<^verbatim>\<open>NaN\<close> is false.\<close>

definition edgeCell :: "nat list \<Rightarrow> int \<Rightarrow> int \<Rightarrow> int \<Rightarrow> int \<Rightarrow> bool" where
  "edgeCell data width height x y =
     (let threshold = 0.15
      in case foldl (sobelTap data width height x y) (Some (0, 0)) kernelTaps of
           None \<Rightarrow> False
         | Some (gx, gy) \<Rightarrow> (let magnitude = sqrt (gx * gx + gy * gy) in magnitude > threshold))"

definition detectEdges :: "nat list \<Rightarrow> int \<Rightarrow> int \<Rightarrow> bool list list" where
  "detectEdges data width height =
     map (\<lambda>y. map (\<lambda>x. edgeCell data width height x y) [0..width - 1]) [0..height - 1]"

subsection \<open>glyphs.ts\<close>

text \<open>
  The calls made on the canvas context, in the order they are made. A CSS colour string
  \<^verbatim>\<open>rgb(r, g, b)\<close> is the three integers it prints.
\<close>

datatype DrawOp =
    SetFillStyle int int int
  | SetStrokeStyle int int int real
  | SetLineWidth real
  | SetImageSmoothingEnabled bool
  | FillRect real real real real
  | BeginPath
  | MoveTo real real
  | LineTo real real
  | Arc real real real real real
  | ClosePath
  | Stroke
  | Fill

definition drawSquare :: "real \<Rightarrow> real \<Rightarrow> real \<Rightarrow> DrawOp list" where
  "drawSquare cx cy sz =
     (let half = sz * 0.5;
          x = real_of_int (mathRound (cx - half));
          y = real_of_int (mathRound (cy - half));
          w = real_of_int (mathRound sz)
      in [FillRect x y w w])"

definition drawCircle :: "real \<Rightarrow> real \<Rightarrow> real \<Rightarrow> DrawOp list" where
  "drawCircle cx cy sz =
     (let radius = sz * 0.5;
          x = real_of_int (mathRound (cx * 2)) / 2;
          y = real_of_int (mathRound (cy * 2)) / 2
      in [BeginPath, Arc x y radius 0 (pi * 2), Fill])"

definition drawDiamond :: "real \<Rightarrow> real \<Rightarrow> real \<Rightarrow> DrawOp list" where
  "drawDiamond cx cy sz =
     (let half = sz * 0.5;
          x = real_of_int (mathRound cx);
          y = real_of_int (mathRound cy)
      in [BeginPath, MoveTo x (y - half), LineTo (x + half) y, LineTo x (y + half),
          LineTo (x - half) y, ClosePath, Fill])"

fun drawGlyph :: "GlyphType \<Rightarrow> real \<Rightarrow> real \<Rightarrow> real \<Rightarrow> DrawOp list" where
  "drawGlyph Square cx cy sz = drawSquare cx cy sz"
| "drawGlyph Circle cx cy sz = drawCircle cx cy sz"
| "drawGlyph Diamond cx cy sz = drawDiamond cx cy sz"

text \<open>
  The centre of the shape that a glyph's calls draw: the centre of the rectangle filled,
  else the centre of the arc, else the mean of the corners of the path.
\<close>

fun rectCenter :: "DrawOp \<Rightarrow> (real \<times> real) option" where
  "rectCenter (FillRect x y w h) = Some (x + w / 2, y + h / 2)"
| "rectCenter _ = None"

fun arcCenter :: "DrawOp \<Rightarrow> (real \<times> real) option" where
  "arcCenter (Arc x y r a0 a1) = Some (x, y)"
| "arcCenter _ = None"

fun pathCorner :: "DrawOp \<Rightarrow> (real \<times> real) option" where
  "pathCorner (MoveTo x y) = Some (x, y)"
| "pathCorner (LineTo x y) = Some (x, y)"
| "pathCorner _ = None"

definition shapeCenter :: "DrawOp list \<Rightarrow> (real \<times> real) option" where
  "shapeCenter ops =
     (case List.map_filter rectCenter ops of
        c # _ \<Rightarrow> Some c
      | [] \<Rightarrow>
         (case List.map_filter arcCenter ops of
            c # _ \<Rightarrow> Some c
          | [] \<Rightarrow>
             (let corners = List.map_filter pathCorner ops
              in if corners = [] then None
                 else Some (sum_list (map fst corners) / real (length corners),
                            sum_list (map snd corners) / real (length corners)))))"

subsection \<open>sampler.ts\<close>

datatype error = SamplingContextFailed

text \<open>
  \<^verbatim>\<open>sampleImage\<close> draws the image on an offscreen canvas of \<open>cols\<close> by \<open>rows\<close> pixels and
  reads the pixels back. The browser's rasterizer is the parameter \<open>raster\<close>; it
  gives \<open>None\<close> where no 2D context is to be had, and the function throws.
\<close>

definition sampleImage ::
  "('img \<Rightarrow> int \<Rightarrow> int \<Rightarrow> nat list option) \<Rightarrow> 'img \<Rightarrow> int \<Rightarrow> int \<Rightarrow> error + nat list" where
  "sampleImage raster img cols rows =
     (case raster img cols rows of
        None \<Rightarrow> Inl SamplingContextFailed
      | Some data \<Rightarrow> Inr data)"

definition getPixelFromImageData ::
  "nat list \<Rightarrow> int \<Rightarrow> int \<Rightarrow> int \<Rightarrow> real option \<times> real option \<times> real option" where
  "getPixelFromImageData data x y width =
     (let index = (y * width + x) * 4
      in (map_option (\<lambda>v. real v / 255) (arrayGet data index),
          map_option (\<lambda>v. real v / 255) (arrayGet data (index + 1)),
          map_option (\<lambda>v. real v / 255) (arrayGet data (index + 2))))"

subsection \<open>types.ts: the parameters\<close>

record KnitParams =
  stitchPx :: real
  paletteMix :: real
  dither :: real
  contrast :: real
  saturation :: real
  edgeCrispness :: real
  showGridLines :: bool

subsection \<open>render.ts\<close>

definition BACKGROUND_COLOR :: RGB where
  "BACKGROUND_COLOR = ACTIVE_PALETTE ! 0"

text \<open>\<^verbatim>\<open>colorMatch\<close>, at its default tolerance.\<close>

fun colorMatch :: "RGB \<Rightarrow> RGB \<Rightarrow> bool" where
  "colorMatch (r1, g1, b1) (r2, g2, b2) =
     (let tolerance = 0.01
      in \<bar>r1 - r2\<bar> < tolerance \<and> \<bar>g1 - g2\<bar> < tolerance \<and> \<bar>b1 - b2\<bar> < tolerance)"

text \<open>
  The key of a colour in \<^verbatim>\<open>colorCounts\<close> is the string \<^verbatim>\<open>r,g,b\<close> of its three
  channels scaled to 255 and rounded; here the three integers that the string prints
  and that \<^verbatim>\<open>split(',').map(Number)\<close> reads back.
\<close>

type_synonym colorKey = "int \<times> int \<times> int"

fun colorKeyOf :: "RGB \<Rightarrow> colorKey" where
  "colorKeyOf (r, g, b) = (mathRound (r * 255), mathRound (g * 255), mathRound (b * 255))"

text \<open>
  A JavaScript \<^verbatim>\<open>Map\<close> keeps its keys in the order of their first insertion: an
  association list, a new key going to the end, a known key keeping its place.
\<close>

fun mapSet :: "('k \<times> 'v) list \<Rightarrow> 'k \<Rightarrow> 'v \<Rightarrow> ('k \<times> 'v) list" where
  "mapSet [] k v = [(k, v)]"
| "mapSet ((k', v') # m) k v = (if k' = k then (k, v) # m else (k', v') # mapSet m k v)"

definition mapGet :: "('k \<times> 'v) list \<Rightarrow> 'k \<Rightarrow> 'v option" where
  "mapGet m k = map_of m k"

text \<open>Lines 119 to 123: the count of one finalized colour.\<close>

definition countColor :: "(colorKey \<times> nat) list \<Rightarrow> RGB \<Rightarrow> (colorKey \<times> nat) list" where
  "countColor colorCounts finalColor =
     (let colorKey = colorKeyOf finalColor
      in if \<not> colorMatch finalColor BACKGROUND_COLOR
         then mapSet colorCounts colorKey
                ((case mapGet colorCounts colorKey of None \<Rightarrow> 0 | Some c \<Rightarrow> c) + 1)
         else colorCounts)"

text \<open>
  Lines 99 to 115: the colour of a cell that is not transparent. A channel that is
  \<^verbatim>\<open>NaN\<close>, read outside the pixel data or made by a dither offset that is \<^verbatim>\<open>NaN\<close>,
  stays \<^verbatim>\<open>NaN\<close> through every transform; then no distance is below the running minimum
  and \<^verbatim>\<open>nearestBrandColor\<close> returns the colour it starts with, \<^verbatim>\<open>ACTIVE_PALETTE[0]\<close>.
\<close>

definition pipelineColor :: "KnitParams \<Rightarrow> nat list \<Rightarrow> int \<Rightarrow> int \<Rightarrow> int \<Rightarrow> RGB" where
  "pipelineColor params data cols x y =
     (case getPixelFromImageData data x y cols of
        (Some r, Some g, Some b) \<Rightarrow>
          (let contrasted = applyContrast (r, g, b) (contrast params);
               saturated = applySaturation contrasted (saturation params)
           in case applyDither saturated (dither params) x y of
                Some dithered \<Rightarrow>
                  (let finalColor = applyPaletteMix dithered (paletteMix params)
                   in nearestBrandColor finalColor)
              | None \<Rightarrow> ACTIVE_PALETTE ! 0)
      | _ \<Rightarrow> ACTIVE_PALETTE ! 0)"

text \<open>
  One turn of the first pass, on the row built so far and the counts. An alpha that is
  \<^verbatim>\<open>NaN\<close> is not below 0.05.
\<close>

fun firstPassCell ::
  "KnitParams \<Rightarrow> nat list \<Rightarrow> int \<Rightarrow> int \<Rightarrow> RGB list \<times> (colorKey \<times> nat) list \<Rightarrow> int
     \<Rightarrow> RGB list \<times> (colorKey \<times> nat) list" where
  "firstPassCell params data cols y (row, colorCounts) x =
     (let pixelIndex = (y * cols + x) * 4
      in if (case arrayGet data (pixelIndex + 3) of
               None \<Rightarrow> False | Some a \<Rightarrow> real a / 255 < 0.05)
         then (row @ [BACKGROUND_COLOR], colorCounts)
         else (let finalColor = pipelineColor params data cols x y
               in (row @ [finalColor], countColor colorCounts finalColor)))"

fun firstPassRow ::
  "KnitParams \<Rightarrow> nat list \<Rightarrow> int \<Rightarrow> RGB list list \<times> (colorKey \<times> nat) list \<Rightarrow> int
     \<Rightarrow> RGB list list \<times> (colorKey \<times> nat) list" where
  "firstPassRow params data cols (cellColors, colorCounts) y =
     (case foldl (firstPassCell params data cols y) ([], colorCounts) [0..cols - 1] of
        (row, colorCounts') \<Rightarrow> (cellColors @ [row], colorCounts'))"

definition firstPass ::
  "KnitParams \<Rightarrow> nat list \<Rightarrow> int \<Rightarrow> int \<Rightarrow> RGB list list \<times> (colorKey \<times> nat) list" where
  "firstPass params data cols rows = foldl (firstPassRow params data cols) ([], []) [0..rows - 1]"

text \<open>Lines 127 to 137: the first key of the greatest count, as a colour.\<close>

fun prominentStep :: "RGB option \<times> nat \<Rightarrow> colorKey \<times> nat \<Rightarrow> RGB option \<times> nat" where
  "prominentStep (prominentColor, maxCount) ((r, g, b), count) =
     (if count > maxCount
      then (Some (real_of_int r / 255, real_of_int g / 255, real_of_int b / 255), count)
      else (prominentColor, maxCount))"

definition prominentOf :: "(colorKey \<times> nat) list \<Rightarrow> RGB option" where
  "prominentOf colorCounts = fst (foldl prominentStep (None, 0) colorCounts)"

text \<open>The prominence analysis of a list of finalized cell colours, in the order of the cells.\<close>

definition prominentColorOf :: "RGB list \<Rightarrow> RGB option" where
  "prominentColorOf cells = prominentOf (foldl countColor [] cells)"

text \<open>\<^verbatim>\<open>edgeMap[y]?.[x] ?? false\<close>\<close>

definition edgeAt :: "bool list list \<Rightarrow> int \<Rightarrow> int \<Rightarrow> bool" where
  "edgeAt edgeMap y x =
     (case arrayGet edgeMap y of
        None \<Rightarrow> False
      | Some row \<Rightarrow> (case arrayGet row x of None \<Rightarrow> False | Some e \<Rightarrow> e))"

text \<open>
  Lines 144 to 167: the glyph of a cell, \<open>None\<close> for a cell that is skipped.
  \<^verbatim>\<open>Math.random\<close> is the sequence \<open>rnd\<close>, of which \<open>n\<close> values are used up; the
  function returns how many are after the cell.
\<close>

definition cellGlyph ::
  "KnitParams \<Rightarrow> bool \<Rightarrow> RGB option \<Rightarrow> RGB \<Rightarrow> int \<Rightarrow> int \<Rightarrow> (nat \<Rightarrow> real) \<Rightarrow> nat
     \<Rightarrow> GlyphType option \<times> nat" where
  "cellGlyph params isEdge prominentColor finalColor x y rnd n =
     (if colorMatch finalColor BACKGROUND_COLOR then (None, n)
      else
        (let isProminent =
               (case prominentColor of None \<Rightarrow> False | Some p \<Rightarrow> colorMatch finalColor p);
             glyph =
               (if isProminent
                then (let pattern = jsRem (x + y) 2 in if pattern = 0 then Circle else Square)
                else Diamond)
         in if isEdge \<and> edgeCrispness params > 0
            then (let bias = edgeCrispness params
                  in (Some (if rnd n < bias * 0.3 then Diamond else glyph), Suc n))
            else (Some glyph, n)))"

text \<open>One turn of the second pass, on the calls made so far and the random values used.\<close>

fun secondPassCell ::
  "KnitParams \<Rightarrow> bool list list \<Rightarrow> RGB option \<Rightarrow> RGB list list \<Rightarrow> real \<Rightarrow> real \<Rightarrow> real
     \<Rightarrow> (nat \<Rightarrow> real) \<Rightarrow> int \<Rightarrow> DrawOp list \<times> nat \<Rightarrow> int \<Rightarrow> DrawOp list \<times> nat" where
  "secondPassCell params edgeMap prominentColor cellColors cellWidth cellHeight glyphSize rnd y
       (ops, n) x =
     (let finalColor = cellColors ! nat y ! nat x
      in case cellGlyph params (edgeAt edgeMap y x) prominentColor finalColor x y rnd n of
           (None, n') \<Rightarrow> (ops, n')
         | (Some glyph, n') \<Rightarrow>
             (let cx = (real_of_int x + 0.5) * cellWidth;
                  cy = (real_of_int y + 0.5) * cellHeight
              in case finalColor of (r, g, b) \<Rightarrow>
                   (ops @ [SetFillStyle (mathRound (r * 255)) (mathRound (g * 255))
                             (mathRound (b * 255))]
                        @ drawGlyph glyph cx cy glyphSize, n')))"

definition secondPass ::
  "KnitParams \<Rightarrow> bool list list \<Rightarrow> RGB option \<Rightarrow> RGB list list \<Rightarrow> real \<Rightarrow> real \<Rightarrow> real
     \<Rightarrow> (nat \<Rightarrow> real) \<Rightarrow> int \<Rightarrow> int \<Rightarrow> DrawOp list" where
  "secondPass params edgeMap prominentColor cellColors cellWidth cellHeight glyphSize rnd cols rows =
     fst (foldl
            (\<lambda>st y. foldl (secondPassCell params edgeMap prominentColor cellColors cellWidth
                              cellHeight glyphSize rnd y) st [0..cols - 1])
            ([], 0) [0..rows - 1])"

text \<open>Lines 58 to 75: the grid lines.\<close>

definition gridLines :: "real \<Rightarrow> int \<Rightarrow> int \<Rightarrow> real \<Rightarrow> real \<Rightarrow> DrawOp list" where
  "gridLines sz cols rows cellWidth cellHeight =
     [SetStrokeStyle 18 34 91 0.25, SetLineWidth 1]
     @ concat (map (\<lambda>y. let py = real_of_int (mathRound (real_of_int y * cellHeight))
                         in [BeginPath, MoveTo 0 py, LineTo sz py, Stroke]) [0..rows])
     @ concat (map (\<lambda>x. let px = real_of_int (mathRound (real_of_int x * cellWidth))
                         in [BeginPath, MoveTo px 0, LineTo px sz, Stroke]) [0..cols])"

text \<open>Lines 35 and 36.\<close>

definition backgroundFill :: "real \<Rightarrow> DrawOp list" where
  "backgroundFill sz =
     (case BACKGROUND_COLOR of (r, g, b) \<Rightarrow>
        [SetFillStyle (mathRound (r * 255)) (mathRound (g * 255)) (mathRound (b * 255)),
         FillRect 0 0 sz sz])"

text \<open>Lines 39 to 41.\<close>

definition gridSize :: "KnitParams \<Rightarrow> real \<Rightarrow> int" where
  "gridSize params sz = (let stitchPx = max 4 (min 100 (stitchPx params)) in \<lfloor>sz / stitchPx\<rfloor>)"

text \<open>
  \<^verbatim>\<open>renderKnitFrame\<close>: the calls made on the context, and the error thrown if the frame
  did not complete.
\<close>

definition renderKnitFrame ::
  "('img \<Rightarrow> int \<Rightarrow> int \<Rightarrow> nat list option) \<Rightarrow> (nat \<Rightarrow> real) \<Rightarrow> 'img \<Rightarrow> KnitParams \<Rightarrow> real
     \<Rightarrow> DrawOp list \<times> error option" where
  "renderKnitFrame raster rnd img params sz =
     (let cols = gridSize params sz;
          rows = gridSize params sz
      in if cols = 0 \<or> rows = 0 then (backgroundFill sz, None)
         else
           (case sampleImage raster img cols rows of
              Inl e \<Rightarrow> (backgroundFill sz, Some e)
            | Inr sampledData \<Rightarrow>
                (let edgeMap = detectEdges sampledData cols rows;
                     cellWidth = sz / real_of_int cols;
                     cellHeight = sz / real_of_int rows;
                     glyphSize = min cellWidth cellHeight * 0.8;
                     (cellColors, colorCounts) = firstPass params sampledData cols rows;
                     prominentColor = prominentOf colorCounts
                 in (backgroundFill sz
                     @ [SetImageSmoothingEnabled False]
                     @ (if showGridLines params
                        then gridLines sz cols rows cellWidth cellHeight else [])
                     @ secondPass params edgeMap prominentColor cellColors cellWidth cellHeight
                         glyphSize rnd cols rows,
                     None))))"

section \<open>Vocabulary of the properties\<close>

text \<open>
  The largest finite double, and the bound from which on rounding to nearest gives an
  infinity.
\<close>

definition maxValue :: real where
  "maxValue = 2 ^ 1024 - 2 ^ 971"

definition overflowThreshold :: real where
  "overflowThreshold = 2 ^ 1024 - 2 ^ 970"

text \<open>
  What is asked of the rounding \<open>fl\<close>, and holds of rounding to the nearest double: the
  result is never \<^verbatim>\<open>NaN\<close>, it is finite below the overflow threshold, and a finite result
  is at most twice the exact one in magnitude.
\<close>

definition isRounding :: "(real \<Rightarrow> jsnum) \<Rightarrow> bool" where
  "isRounding fl =
     ((\<forall>x. fl x \<noteq> NaN)
      \<and> (\<forall>x. \<bar>x\<bar> < overflowThreshold \<longrightarrow> fl x \<noteq> PosInf \<and> fl x \<noteq> NegInf)
      \<and> (\<forall>x y. fl x = Fin y \<longrightarrow> \<bar>y\<bar> \<le> 2 * \<bar>x\<bar>))"

text \<open>A rounding for examples: exact below the overflow threshold, an infinity from there on.\<close>

definition flExact :: "real \<Rightarrow> jsnum" where
  "flExact x = (if \<bar>x\<bar> < overflowThreshold then Fin x else if 0 < x then PosInf else NegInf)"

text \<open>
  A number is a finite value of the unit interval; every channel of a colour is; every
  channel of a colour is or is \<^verbatim>\<open>NaN\<close>.
\<close>

definition unitNum :: "jsnum \<Rightarrow> bool" where
  "unitNum v = (case v of Fin x \<Rightarrow> 0 \<le> x \<and> x \<le> 1 | _ \<Rightarrow> False)"

definition unitRGB :: "jsRGB \<Rightarrow> bool" where
  "unitRGB c = (case c of (r, g, b) \<Rightarrow> unitNum r \<and> unitNum g \<and> unitNum b)"

definition unitOrNaN :: "jsRGB \<Rightarrow> bool" where
  "unitOrNaN c = (case c of (r, g, b) \<Rightarrow>
     (r = NaN \<or> unitNum r) \<and> (g = NaN \<or> unitNum g) \<and> (b = NaN \<or> unitNum b))"

text \<open>A colour of finite channels as a colour of JavaScript numbers.\<close>

fun liftRGB :: "RGB \<Rightarrow> jsRGB" where
  "liftRGB (r, g, b) = (Fin r, Fin g, Fin b)"

text \<open>A coordinate on the pixel grid, and one on the grid of half pixels.\<close>

definition isInteger :: "real \<Rightarrow> bool" where
  "isInteger v = (real_of_int \<lfloor>v\<rfloor> = v)"

definition isHalfInteger :: "real \<Rightarrow> bool" where
  "isHalfInteger v = isInteger (v * 2)"

text \<open>The three entries of \<open>ACTIVE_PALETTE\<close>, by the names of its comments.\<close>

definition paletteBlue :: RGB where
  "paletteBlue = (0 / 255, 82 / 255, 176 / 255)"

definition paletteNavy :: RGB where
  "paletteNavy = (1 / 255, 36 / 255, 100 / 255)"

definition paletteYellow :: RGB where
  "paletteYellow = (255 / 255, 242 / 255, 2 / 255)"

text \<open>An example frame: four opaque cells of the palette's yellow, and its parameters.\<close>

definition yellowCells :: "nat list" where
  "yellowCells = [255, 242, 2, 255, 255, 242, 2, 255, 255, 242, 2, 255, 255, 242, 2, 255]"

definition wideStitch :: KnitParams where
  "wideStitch = \<lparr>stitchPx = 300, paletteMix = 1, dither = 0, contrast = 1, saturation = 1,
                  edgeCrispness = 0, showGridLines = False\<rparr>"

text \<open>The position at which a value is first met in a list (the length, if it is not).\<close>

fun firstIndex :: "'a list \<Rightarrow> 'a \<Rightarrow> nat" where
  "firstIndex [] c = 0"
| "firstIndex (d # ds) c = (if d = c then 0 else Suc (firstIndex ds c))"

text \<open>The update that \<open>countColor\<close> makes of the counts, for a key.\<close>

definition countKey :: "('k \<times> nat) list \<Rightarrow> 'k \<Rightarrow> ('k \<times> nat) list" where
  "countKey m k = mapSet m k ((case mapGet m k of None \<Rightarrow> 0 | Some c \<Rightarrow> c) + 1)"

text \<open>The colour that \<open>prominentStep\<close> reads back from a key.\<close>

fun keyColor :: "colorKey \<Rightarrow> RGB" where
  "keyColor (r, g, b) = (real_of_int r / 255, real_of_int g / 255, real_of_int b / 255)"

text \<open>The colour that the first pass stores for the cell \<open>(x, y)\<close>.\<close>

definition cellColor :: "KnitParams \<Rightarrow> nat list \<Rightarrow> int \<Rightarrow> int \<Rightarrow> int \<Rightarrow> RGB" where
  "cellColor params data cols x y =
     (if (case arrayGet data ((y * cols + x) * 4 + 3) of
            None \<Rightarrow> False | Some a \<Rightarrow> real a / 255 < 0.05)
      then BACKGROUND_COLOR else pipelineColor params data cols x y)"

section \<open>Properties\<close>

subsection \<open>The palette mix\<close>

text \<open>
  C2. For every colour \<open>c\<close> and every mix value \<open>m\<close>, \<open>applyPaletteMix c m\<close> is
  \<open>nearestBrandColor c\<close>: the mix argument has no effect, the colour is always strictly
  quantized.
\<close>

theorem applyPaletteMix_strict: "applyPaletteMix c m = nearestBrandColor c"
  by (simp add: applyPaletteMix_def)

subsection \<open>The Bayer table\<close>

lemma jsRem4_cases: "0 \<le> x \<Longrightarrow> jsRem x 4 = 0 \<or> jsRem x 4 = 1 \<or> jsRem x 4 = 2 \<or> jsRem x 4 = 3"
  unfolding jsRem_def by (simp; presburger)

lemma bayer_nth:
  "i \<in> {0, 1, 2, 3, 4, 5, 6, 7, 8, 9, 10, 11, 12, 13, 14, 15 :: int} \<Longrightarrow>
   \<exists>v. arrayGet BAYER_4X4 i = Some v \<and> 0 \<le> v \<and> v \<le> 15 / 16"
  by (auto simp: arrayGet_def BAYER_4X4_def)

lemma bayerIndex_range:
  assumes "0 \<le> x" and "0 \<le> y"
  shows "bayerIndex x y \<in> {0, 1, 2, 3, 4, 5, 6, 7, 8, 9, 10, 11, 12, 13, 14, 15}"
  using jsRem4_cases [OF assms(1)] jsRem4_cases [OF assms(2)]
  by (auto simp: bayerIndex_def Let_def)

lemma bayer4_defined:
  assumes "0 \<le> x" and "0 \<le> y"
  shows "\<exists>v. bayer4 x y = Some v \<and> 0 \<le> v \<and> v \<le> 15 / 16"
  unfolding bayer4_def by (rule bayer_nth [OF bayerIndex_range [OF assms]])

text \<open>
  C10. For all integer coordinates \<open>x \<ge> 0\<close> and \<open>y \<ge> 0\<close>, the index that \<open>bayer4\<close>
  computes into the table of 16 entries lies between 0 and 15, and \<open>bayer4 x y\<close> is a
  defined value between 0 and 15/16: the read outside the table does not happen.
\<close>

theorem bayer4_in_bounds:
  assumes "0 \<le> x" and "0 \<le> y"
  shows "0 \<le> bayerIndex x y \<and> bayerIndex x y \<le> 15 \<and>
         (\<exists>v. bayer4 x y = Some v \<and> 0 \<le> v \<and> v \<le> 15 / 16)"
proof -
  have "0 \<le> bayerIndex x y \<and> bayerIndex x y \<le> 15"
    using bayerIndex_range [OF assms] by auto
  then show ?thesis using bayer4_defined [OF assms] by blast
qed

theorem bayer4_in_bounds_witness:
  "(0::int) \<le> 5 \<and> (0::int) \<le> 2 \<and> bayerIndex 5 2 = 9 \<and> bayer4 5 2 = Some (11 / 16)"
  using bayer4_in_bounds [of 5 2]
  by (simp add: bayerIndex_def bayer4_def jsRem_def arrayGet_def BAYER_4X4_def)

subsection \<open>Contrast, saturation and dither\<close>

lemma clampNum_cases: "clampNum v = NaN \<or> unitNum (clampNum v)"
  by (cases v) (auto simp: clampNum_def mathMin_def mathMax_def unitNum_def)

lemma clampNum_unit: "v \<noteq> NaN \<Longrightarrow> unitNum (clampNum v)"
  by (cases v) (auto simp: clampNum_def mathMin_def mathMax_def unitNum_def)

lemma clampNum_Fin: "clampNum (Fin v) = Fin (clamp01 v)"
  by (auto simp: clampNum_def mathMin_def mathMax_def clamp01_def)

lemma isRounding_flExact: "isRounding flExact"
  by (auto simp: isRounding_def flExact_def)


lemma rounding_notNaN: "isRounding fl \<Longrightarrow> fl x \<noteq> NaN"
  by (simp add: isRounding_def)

lemma rounding_finite:
  assumes "isRounding fl" and "\<bar>x\<bar> < overflowThreshold"
  shows "\<exists>y. fl x = Fin y \<and> \<bar>y\<bar> \<le> 2 * \<bar>x\<bar>"
  using assms unfolding isRounding_def by (cases "fl x") auto

lemma rounding_step:
  assumes "isRounding fl" and "\<bar>x\<bar> \<le> 2 ^ n" and "n \<le> 1022"
  shows "\<exists>y. fl x = Fin y \<and> \<bar>y\<bar> \<le> 2 ^ Suc n"
proof -
  have "(2::real) ^ n \<le> 2 ^ 1022" using assms(3) by (intro power_increasing) simp_all
  also have "\<dots> < overflowThreshold" by (simp add: overflowThreshold_def)
  finally have "\<bar>x\<bar> < overflowThreshold" using assms(2) by simp
  from rounding_finite [OF assms(1) this] assms(2) show ?thesis by auto
qed

lemma jsAdd_Fin_right: "isRounding fl \<Longrightarrow> a \<noteq> NaN \<Longrightarrow> jsAdd fl a (Fin y) \<noteq> NaN"
  by (cases a) (simp_all add: rounding_notNaN)

lemma jsAdd_Fin_left: "isRounding fl \<Longrightarrow> a \<noteq> NaN \<Longrightarrow> jsAdd fl (Fin y) a \<noteq> NaN"
  by (cases a) (simp_all add: rounding_notNaN)

lemma contrast_channel_notNaN:
  assumes fl: "isRounding fl" and r: "\<bar>r\<bar> \<le> maxValue"
  shows "jsAdd fl (jsMul fl (jsSub fl (Fin r) (Fin 0.5)) (Fin k)) (Fin 0.5) \<noteq> NaN"
proof -
  have "\<bar>r - 1 / 2\<bar> \<le> maxValue + 1 / 2" using r by simp
  also have "\<dots> < overflowThreshold" by (simp add: maxValue_def overflowThreshold_def)
  finally obtain d where d: "fl (r - 1 / 2) = Fin d"
    using rounding_finite [OF fl] by blast
  have "jsMul fl (jsSub fl (Fin r) (Fin 0.5)) (Fin k) = fl (d * k)"
    by (simp add: jsSub_def d)
  then show ?thesis using jsAdd_Fin_right [OF fl rounding_notNaN [OF fl]] by simp
qed

lemma saturation_luma_finite:
  assumes fl: "isRounding fl"
    and r: "\<bar>r\<bar> \<le> 2 ^ 1000" and g: "\<bar>g\<bar> \<le> 2 ^ 1000" and b: "\<bar>b\<bar> \<le> 2 ^ 1000"
  shows "\<exists>l. jsAdd fl (jsAdd fl (jsMul fl (fl 0.2126) (Fin r)) (jsMul fl (fl 0.7152) (Fin g)))
                 (jsMul fl (fl 0.0722) (Fin b)) = Fin l \<and> \<bar>l\<bar> \<le> 2 ^ 1006"
proof -
  have const: "\<exists>c. fl v = Fin c \<and> \<bar>c\<bar> \<le> 2" if "\<bar>v\<bar> \<le> 1" for v
    using rounding_step [OF fl, of v 0] that by simp
  have prod: "\<exists>p. fl (c * v) = Fin p \<and> \<bar>p\<bar> \<le> 2 ^ 1002" if "\<bar>c\<bar> \<le> 2" "\<bar>v\<bar> \<le> 2 ^ 1000" for c v
  proof -
    have "\<bar>c * v\<bar> \<le> 2 * 2 ^ 1000" unfolding abs_mult using that by (intro mult_mono) simp_all
    then have "\<bar>c * v\<bar> \<le> 2 ^ 1001" by simp
    from rounding_step [OF fl this] show ?thesis by simp
  qed
  obtain c1 where c1: "fl 0.2126 = Fin c1" "\<bar>c1\<bar> \<le> 2" using const [of "0.2126"] by auto
  obtain c2 where c2: "fl 0.7152 = Fin c2" "\<bar>c2\<bar> \<le> 2" using const [of "0.7152"] by auto
  obtain c3 where c3: "fl 0.0722 = Fin c3" "\<bar>c3\<bar> \<le> 2" using const [of "0.0722"] by auto
  obtain p1 where p1: "fl (c1 * r) = Fin p1" "\<bar>p1\<bar> \<le> 2 ^ 1002" using prod [OF c1(2) r] by blast
  obtain p2 where p2: "fl (c2 * g) = Fin p2" "\<bar>p2\<bar> \<le> 2 ^ 1002" using prod [OF c2(2) g] by blast
  obtain p3 where p3: "fl (c3 * b) = Fin p3" "\<bar>p3\<bar> \<le> 2 ^ 1002" using prod [OF c3(2) b] by blast
  have "\<bar>p1 + p2\<bar> \<le> 2 ^ 1003" using p1(2) p2(2) by simp
  from rounding_step [OF fl this]
  obtain q where q: "fl (p1 + p2) = Fin q" "\<bar>q\<bar> \<le> 2 ^ 1004" by auto
  have "\<bar>q + p3\<bar> \<le> 2 ^ 1005" using q(2) p3(2) by simp
  from rounding_step [OF fl this]
  obtain l where l: "fl (q + p3) = Fin l" "\<bar>l\<bar> \<le> 2 ^ 1006" by auto
  show ?thesis
    unfolding c1(1) c2(1) c3(1) jsMul.simps p1(1) p2(1) p3(1) jsAdd.simps q(1) l(1)
    using l(2) by blast
qed

lemma saturation_channel_notNaN:
  assumes fl: "isRounding fl" and v: "\<bar>v\<bar> \<le> 2 ^ 1000" and l: "\<bar>l\<bar> \<le> 2 ^ 1006"
  shows "jsAdd fl (Fin l) (jsMul fl (jsSub fl (Fin v) (Fin l)) (Fin s)) \<noteq> NaN"
proof -
  have "\<bar>v - l\<bar> \<le> 2 ^ 1007" using v l by simp
  from rounding_step [OF fl this]
  obtain d where d: "fl (v - l) = Fin d" by auto
  have "jsMul fl (jsSub fl (Fin v) (Fin l)) (Fin s) = fl (d * s)"
    by (simp add: jsSub_def d)
  then show ?thesis using jsAdd_Fin_left [OF fl rounding_notNaN [OF fl]] by simp
qed

lemma dither_value_notNaN:
  assumes fl: "isRounding fl" and t: "0 \<le> t" "t \<le> 15 / 16" and a: "0 < a" "a \<le> maxValue"
  shows "jsMul fl (jsMul fl (jsSub fl (Fin t) (Fin 0.5)) (Fin a)) (fl 0.1) \<noteq> NaN"
proof -
  have small: "\<bar>t - 1 / 2\<bar> \<le> 1 / 2" using t by (auto simp: abs_if)
  then have "\<bar>t - 1 / 2\<bar> < overflowThreshold" by (simp add: overflowThreshold_def)
  from rounding_finite [OF fl this] small
  obtain d where d: "fl (t - 1 / 2) = Fin d" "\<bar>d\<bar> \<le> 1" by auto
  have "\<bar>d * a\<bar> \<le> 1 * maxValue" unfolding abs_mult using d(2) a by (intro mult_mono) simp_all
  also have "\<dots> < overflowThreshold" by (simp add: maxValue_def overflowThreshold_def)
  finally obtain e where e: "fl (d * a) = Fin e" using rounding_finite [OF fl] by blast
  have "\<bar>0.1 :: real\<bar> < overflowThreshold" by (simp add: overflowThreshold_def)
  from rounding_finite [OF fl this] obtain c where c: "fl 0.1 = Fin c" by auto
  show ?thesis
    unfolding c jsSub_def jsNeg.simps jsAdd.simps
    using d e rounding_notNaN [OF fl] by simp
qed


lemma unitOrNaN_clamped: "unitOrNaN (clampNum u, clampNum v, clampNum w)"
  using clampNum_cases [of u] clampNum_cases [of v] clampNum_cases [of w]
  by (simp add: unitOrNaN_def)

lemma unitRGB_clamped:
  "u \<noteq> NaN \<Longrightarrow> v \<noteq> NaN \<Longrightarrow> w \<noteq> NaN \<Longrightarrow> unitRGB (clampNum u, clampNum v, clampNum w)"
  by (simp add: unitRGB_def clampNum_unit)

lemma applyContrastNum_clamped: "k \<noteq> Fin 1 \<Longrightarrow> unitOrNaN (applyContrastNum fl c k)"
  by (cases c) (simp add: unitOrNaN_clamped)

lemma applySaturationNum_clamped: "s \<noteq> Fin 1 \<Longrightarrow> unitOrNaN (applySaturationNum fl c s)"
  by (cases c) (simp add: unitOrNaN_clamped Let_def)

lemma applyDitherNum_clamped:
  "\<not> jsLessEq a (Fin 0) \<Longrightarrow> unitOrNaN (applyDitherNum fl c a x y)"
  by (cases c) (simp add: unitOrNaN_clamped Let_def)

lemma applyContrastNum_finite:
  assumes "isRounding fl" and "\<bar>r\<bar> \<le> maxValue" and "\<bar>g\<bar> \<le> maxValue" and "\<bar>b\<bar> \<le> maxValue"
    and "k \<noteq> 1"
  shows "unitRGB (applyContrastNum fl (Fin r, Fin g, Fin b) (Fin k))"
  using assms(5) contrast_channel_notNaN [OF assms(1,2), of k]
    contrast_channel_notNaN [OF assms(1,3), of k] contrast_channel_notNaN [OF assms(1,4), of k]
  by (simp add: unitRGB_clamped del: jsAdd.simps jsMul.simps)

lemma applySaturationNum_finite:
  assumes fl: "isRounding fl"
    and r: "\<bar>r\<bar> \<le> 2 ^ 1000" and g: "\<bar>g\<bar> \<le> 2 ^ 1000" and b: "\<bar>b\<bar> \<le> 2 ^ 1000"
    and s: "s \<noteq> 1"
  shows "unitRGB (applySaturationNum fl (Fin r, Fin g, Fin b) (Fin s))"
proof -
  obtain l where l: "jsAdd fl (jsAdd fl (jsMul fl (fl 0.2126) (Fin r)) (jsMul fl (fl 0.7152) (Fin g)))
                 (jsMul fl (fl 0.0722) (Fin b)) = Fin l" "\<bar>l\<bar> \<le> 2 ^ 1006"
    using saturation_luma_finite [OF fl r g b] by blast
  have eq: "applySaturationNum fl (Fin r, Fin g, Fin b) (Fin s)
          = (clampNum (jsAdd fl (Fin l) (jsMul fl (jsSub fl (Fin r) (Fin l)) (Fin s))),
             clampNum (jsAdd fl (Fin l) (jsMul fl (jsSub fl (Fin g) (Fin l)) (Fin s))),
             clampNum (jsAdd fl (Fin l) (jsMul fl (jsSub fl (Fin b) (Fin l)) (Fin s))))"
    using s unfolding applySaturationNum.simps Let_def l(1) by simp
  show ?thesis
    unfolding eq
    by (intro unitRGB_clamped saturation_channel_notNaN [OF fl _ l(2)] r g b)
qed

lemma applyDitherNum_finite:
  assumes fl: "isRounding fl" and a: "0 < a" "a \<le> maxValue" and xy: "0 \<le> x" "0 \<le> y"
  shows "unitRGB (applyDitherNum fl (Fin r, Fin g, Fin b) (Fin a) x y)"
proof -
  obtain t where t: "bayer4 x y = Some t" "0 \<le> t" "t \<le> 15 / 16"
    using bayer4_defined [OF xy] by blast
  define dv where "dv = jsMul fl (jsMul fl (jsSub fl (Fin t) (Fin 0.5)) (Fin a)) (fl 0.1)"
  have dv: "dv \<noteq> NaN" unfolding dv_def by (rule dither_value_notNaN [OF fl t(2,3) a])
  have eq: "applyDitherNum fl (Fin r, Fin g, Fin b) (Fin a) x y
          = (clampNum (jsAdd fl (Fin r) dv), clampNum (jsAdd fl (Fin g) dv),
             clampNum (jsAdd fl (Fin b) dv))"
    using a(1) unfolding applyDitherNum.simps Let_def t(1) dv_def by (simp add: jsLessEq_def)
  show ?thesis
    unfolding eq by (intro unitRGB_clamped jsAdd_Fin_left [OF fl dv])
qed

text \<open>
  C5, as stated: for every input colour, also one with channels out of range, and every
  parameter value, each channel that \<open>applyContrast\<close>, \<open>applySaturation\<close> and \<open>applyDither\<close>
  return lies in the unit interval, and no value that is not finite is passed on. It
  fails on the early returns: contrast 1, saturation 1 and dither amount 0 hand the
  colour \<open>(2, 0, 0)\<close> back as it came. It fails on \<^verbatim>\<open>NaN\<close>, which the clamp lets through: a
  channel that is \<^verbatim>\<open>NaN\<close> stays so; an infinite channel at contrast 0, and the channel 0.5
  at an infinite contrast, become \<^verbatim>\<open>NaN\<close>; so does a finite colour whose difference to
  its luminance overflows, at saturation 0; and so does every channel of a dither at a
  negative coordinate, or of an infinite amount where the threshold is 0.5.
\<close>

theorem transforms_clamped_or_NaN_counterexample:
  "applyContrastNum flExact (Fin 2, Fin 0, Fin 0) (Fin 1) = (Fin 2, Fin 0, Fin 0)
   \<and> applySaturationNum flExact (Fin 2, Fin 0, Fin 0) (Fin 1) = (Fin 2, Fin 0, Fin 0)
   \<and> applyDitherNum flExact (Fin 2, Fin 0, Fin 0) (Fin 0) 0 0 = (Fin 2, Fin 0, Fin 0)
   \<and> \<not> unitRGB (Fin 2, Fin 0, Fin 0)
   \<and> fst (applyContrastNum flExact (NaN, Fin 0, Fin 0) (Fin 2)) = NaN
   \<and> fst (applyContrastNum flExact (PosInf, Fin 0, Fin 0) (Fin 0)) = NaN
   \<and> fst (applyContrastNum flExact (Fin (1 / 2), Fin 0, Fin 0) PosInf) = NaN
   \<and> fst (applySaturationNum flExact
             (Fin (17 * 10 ^ 307), Fin (- (17 * 10 ^ 307)), Fin (- (17 * 10 ^ 307))) (Fin 0)) = NaN
   \<and> applyDitherNum flExact (Fin (1 / 2), Fin (1 / 2), Fin (1 / 2)) (Fin 1) (- 1) 0
       = (NaN, NaN, NaN)
   \<and> applyDitherNum flExact (Fin (1 / 2), Fin (1 / 2), Fin (1 / 2)) PosInf 1 0
       = (NaN, NaN, NaN)"
  by (simp add: flExact_def overflowThreshold_def jsSub_def jsLessEq_def clampNum_def mathMin_def
        mathMax_def unitRGB_def unitNum_def Let_def bayer4_def bayerIndex_def jsRem_def
        arrayGet_def BAYER_4X4_def)

text \<open>
  C5, amended: for every input colour, whatever its channels (out of range, infinite or
  \<^verbatim>\<open>NaN\<close>), and every parameter value off the early returns (a contrast other than 1, a
  saturation other than 1, a dither amount that is not 0 or less), each channel that
  \<open>applyContrast\<close>, \<open>applySaturation\<close> and \<open>applyDither\<close> return lies in the unit interval
  or is \<^verbatim>\<open>NaN\<close>: no infinity and no finite value out of range is passed on. The channel
  lies in the unit interval, and is not \<^verbatim>\<open>NaN\<close>, when the input channels and the parameter
  are finite: for \<open>applyContrast\<close> at every finite colour and contrast, for \<open>applyDither\<close>
  at every finite colour and amount and coordinates that are not negative, and for
  \<open>applySaturation\<close> at every finite saturation and channels of magnitude up to \<open>2^1000\<close>
  (so that the luminance and a channel's difference to it do not overflow). On the early
  returns (contrast 1, saturation 1, amount 0 or less) the colour is returned unchanged.
\<close>

theorem transforms_clamped_or_NaN:
  "(k \<noteq> Fin 1 \<longrightarrow> unitOrNaN (applyContrastNum fl c k))
   \<and> (s \<noteq> Fin 1 \<longrightarrow> unitOrNaN (applySaturationNum fl c s))
   \<and> (\<not> jsLessEq a (Fin 0) \<longrightarrow> unitOrNaN (applyDitherNum fl c a x y))
   \<and> (isRounding fl \<and> \<bar>r\<bar> \<le> maxValue \<and> \<bar>g\<bar> \<le> maxValue \<and> \<bar>b\<bar> \<le> maxValue \<and> k' \<noteq> 1 \<longrightarrow>
        unitRGB (applyContrastNum fl (Fin r, Fin g, Fin b) (Fin k')))
   \<and> (isRounding fl \<and> \<bar>r\<bar> \<le> 2 ^ 1000 \<and> \<bar>g\<bar> \<le> 2 ^ 1000 \<and> \<bar>b\<bar> \<le> 2 ^ 1000 \<and> s' \<noteq> 1 \<longrightarrow>
        unitRGB (applySaturationNum fl (Fin r, Fin g, Fin b) (Fin s')))
   \<and> (isRounding fl \<and> 0 < a' \<and> a' \<le> maxValue \<and> 0 \<le> x \<and> 0 \<le> y \<longrightarrow>
        unitRGB (applyDitherNum fl (Fin r, Fin g, Fin b) (Fin a') x y))
   \<and> applyContrastNum fl c (Fin 1) = c \<and> applySaturationNum fl c (Fin 1) = c
   \<and> (jsLessEq a (Fin 0) \<longrightarrow> applyDitherNum fl c a x y = c)"
proof -
  have id: "applyContrastNum fl c (Fin 1) = c" "applySaturationNum fl c (Fin 1) = c"
    "jsLessEq a (Fin 0) \<longrightarrow> applyDitherNum fl c a x y = c"
    by (cases c; simp)+
  show ?thesis
    using applyContrastNum_clamped [of k fl c] applySaturationNum_clamped [of s fl c]
      applyDitherNum_clamped [of a fl c x y] applyContrastNum_finite [of fl r g b k']
      applySaturationNum_finite [of fl r g b s'] applyDitherNum_finite [of fl a' x y r g b] id
    by blast
qed

theorem transforms_clamped_or_NaN_witness:
  "unitOrNaN (applyContrastNum flExact (PosInf, Fin (- 3), NaN) (Fin 2))
   \<and> unitOrNaN (applySaturationNum flExact (PosInf, Fin (- 3), NaN) (Fin 0))
   \<and> unitOrNaN (applyDitherNum flExact (PosInf, Fin (- 3), NaN) (Fin 1) 1 0)
   \<and> isRounding flExact
   \<and> unitRGB (applyContrastNum flExact (Fin 2, Fin (- 1), Fin (1 / 2)) (Fin 2))
   \<and> unitRGB (applySaturationNum flExact (Fin 2, Fin (- 1), Fin (1 / 2)) (Fin 0))
   \<and> unitRGB (applyDitherNum flExact (Fin 2, Fin (- 1), Fin (1 / 2)) (Fin 1) 1 0)
   \<and> applyDitherNum flExact (PosInf, Fin (- 3), NaN) (Fin 0) 1 0 = (PosInf, Fin (- 3), NaN)"
  using transforms_clamped_or_NaN [of "Fin 2" flExact "(PosInf, Fin (- 3), NaN)" "Fin 0" "Fin 1" 1 0
      2 "- 1" "1 / 2" 2 0 1]
    transforms_clamped_or_NaN [of "Fin 2" flExact "(PosInf, Fin (- 3), NaN)" "Fin 0" "Fin 0" 1 0
      2 "- 1" "1 / 2" 2 0 1]
    isRounding_flExact
  by (simp add: jsLessEq_def maxValue_def)

text \<open>
  With nothing rounded and nothing overflowing, the transforms on JavaScript numbers are,
  on finite values, the transforms on reals that the cell pipeline is modelled with.
\<close>

lemma applyContrastNum_exact: "applyContrastNum Fin (liftRGB c) (Fin k) = liftRGB (applyContrast c k)"
  by (cases c) (simp add: clampNum_Fin jsSub_def)

lemma applySaturationNum_exact:
  "applySaturationNum Fin (liftRGB c) (Fin s) = liftRGB (applySaturation c s)"
  by (cases c) (simp add: clampNum_Fin jsSub_def Let_def)

lemma jsLessEq_Fin: "jsLessEq (Fin a) (Fin b) \<longleftrightarrow> a \<le> b"
  by (auto simp: jsLessEq_def)

lemma clampNum_NaN: "clampNum NaN = NaN"
  by (simp add: clampNum_def mathMin_def mathMax_def)

lemma applyDitherNum_exact:
  "applyDitherNum Fin (liftRGB c) (Fin a) x y
     = (case applyDither c a x y of Some d \<Rightarrow> liftRGB d | None \<Rightarrow> (NaN, NaN, NaN))"
  by (cases c; cases "bayer4 x y")
     (simp_all add: jsLessEq_Fin clampNum_Fin clampNum_NaN jsSub_def Let_def)

subsection \<open>Quantization\<close>

lemma srgbToLinear_0: "srgbToLinear 0 = 0"
  by (simp add: srgbToLinear_def)

lemma srgbToLinear_1: "srgbToLinear 1 = 1"
  by (simp add: srgbToLinear_def)

lemma srgbToLinear_small: "srgbToLinear (1 / 255) = 1 / 255 / 12.92"
  by (simp add: srgbToLinear_def)

lemma colorDistance_self: "colorDistance c c = 0"
  by (cases c) (simp add: colorDistance_def)

lemma colorDistance_pos:
  assumes ne: "srgbToLinear (fst a) \<noteq> srgbToLinear (fst b)"
  shows "0 < colorDistance a b"
proof -
  obtain ar ag ab where a: "a = (ar, ag, ab)" by (cases a)
  obtain br bg bb where b: "b = (br, bg, bb)" by (cases b)
  have "0 < (srgbToLinear ar - srgbToLinear br) * (srgbToLinear ar - srgbToLinear br)"
    using ne a b by (auto simp: zero_less_mult_iff)
  moreover have "0 \<le> (srgbToLinear ag - srgbToLinear bg) * (srgbToLinear ag - srgbToLinear bg)"
    and "0 \<le> (srgbToLinear ab - srgbToLinear bb) * (srgbToLinear ab - srgbToLinear bb)"
    by simp_all
  ultimately show ?thesis unfolding a b colorDistance_def by (simp add: Let_def add_pos_nonneg)
qed

lemma ACTIVE_PALETTE_entries: "ACTIVE_PALETTE = [paletteBlue, paletteNavy, paletteYellow]"
  by (simp add: ACTIVE_PALETTE_def paletteBlue_def paletteNavy_def paletteYellow_def)

lemma palette_distances:
  "0 < colorDistance paletteBlue paletteNavy" "0 < colorDistance paletteBlue paletteYellow"
  "0 < colorDistance paletteNavy paletteBlue" "0 < colorDistance paletteNavy paletteYellow"
  "0 < colorDistance paletteYellow paletteBlue" "0 < colorDistance paletteYellow paletteNavy"
  by (rule colorDistance_pos,
      simp add: paletteBlue_def paletteNavy_def paletteYellow_def srgbToLinear_0 srgbToLinear_1
        srgbToLinear_small)+

text \<open>The loop of \<open>nearestBrandColor\<close> over the three entries, unrolled.\<close>

lemma nearestBrandColor_unfold:
  "nearestBrandColor c =
     (let d0 = colorDistance c paletteBlue; d1 = colorDistance c paletteNavy;
          d2 = colorDistance c paletteYellow
      in if d1 < d0 then (if d2 < d1 then paletteYellow else paletteNavy)
         else (if d2 < d0 then paletteYellow else paletteBlue))"
  by (simp add: nearestBrandColor_def ACTIVE_PALETTE_entries Let_def)

lemma nearestBrandColor_member: "nearestBrandColor c \<in> set ACTIVE_PALETTE"
  by (simp add: nearestBrandColor_unfold ACTIVE_PALETTE_entries Let_def)

lemma nearestBrandColor_fixed: "p \<in> set ACTIVE_PALETTE \<Longrightarrow> nearestBrandColor p = p"
  using palette_distances
  by (auto simp: nearestBrandColor_unfold ACTIVE_PALETTE_entries Let_def colorDistance_self)

text \<open>
  C6. For every colour \<open>c\<close>, \<open>nearestBrandColor c\<close> is one of the three colours of the
  active palette, and quantizing it again returns it:
  \<open>nearestBrandColor (nearestBrandColor c) = nearestBrandColor c\<close>.
\<close>

theorem nearestBrandColor_idempotent:
  "nearestBrandColor c \<in> set ACTIVE_PALETTE \<and> length ACTIVE_PALETTE = 3
   \<and> nearestBrandColor (nearestBrandColor c) = nearestBrandColor c"
  using nearestBrandColor_member [of c] nearestBrandColor_fixed [of "nearestBrandColor c"]
  by (simp add: ACTIVE_PALETTE_def)

text \<open>
  C8, as stated: the colour \<open>(0, 0.2118, 0.4980)\<close> is a palette entry that
  \<open>nearestBrandColor\<close> returns unchanged. It is no entry of \<open>ACTIVE_PALETTE\<close>, and the
  function returns entries only.
\<close>

theorem nearestBrandColor_example_counterexample:
  "nearestBrandColor (0, 0.2118, 0.4980) \<noteq> (0, 0.2118, 0.4980)"
proof
  assume "nearestBrandColor (0, 0.2118, 0.4980) = (0, 0.2118, 0.4980)"
  then have "(0, 0.2118, 0.4980) \<in> set ACTIVE_PALETTE"
    using nearestBrandColor_member [of "(0, 0.2118, 0.4980)"] by simp
  then show False by (simp add: ACTIVE_PALETTE_def)
qed

text \<open>
  C8, amended: \<open>nearestBrandColor\<close> applied to a colour that is a member of the active
  palette returns that member; so for the navy entry \<open>(1/255, 36/255, 100/255)\<close>.
\<close>

theorem nearestBrandColor_fixed_point:
  "p \<in> set ACTIVE_PALETTE \<Longrightarrow> nearestBrandColor p = p"
  by (rule nearestBrandColor_fixed)

theorem nearestBrandColor_fixed_point_witness:
  "(1 / 255, 36 / 255, 100 / 255) \<in> set ACTIVE_PALETTE
   \<and> nearestBrandColor (1 / 255, 36 / 255, 100 / 255) = (1 / 255, 36 / 255, 100 / 255)"
  using nearestBrandColor_fixed_point [of "(1 / 255, 36 / 255, 100 / 255)"]
  by (simp add: ACTIVE_PALETTE_def)

subsection \<open>Glyph shapes\<close>

lemma isInteger_of_int: "isInteger (real_of_int i)"
  by (simp add: isInteger_def)

text \<open>
  C9, as stated: the square glyph is drawn with its centre at integer pixel coordinates.
  A square of size 5 asked for at \<open>(10, 10)\<close> is the rectangle at \<open>(8, 8)\<close> of side 5, whose
  centre is \<open>(10.5, 10.5)\<close>.
\<close>

theorem glyph_centers_counterexample:
  "drawSquare 10 10 5 = [FillRect 8 8 5 5]
   \<and> shapeCenter (drawSquare 10 10 5) = Some (21 / 2, 21 / 2) \<and> \<not> isInteger (21 / 2)"
  by (simp add: drawSquare_def shapeCenter_def mathRound_def isInteger_def)

text \<open>
  C9, amended: for every requested centre and glyph size, the square is drawn as a
  rectangle whose corner and side are integers, so that its centre lies at multiples of
  0.5; the diamond is drawn with its centre at integer pixel coordinates, and the circle
  with its centre at multiples of 0.5.
\<close>

theorem glyph_alignment:
  "(\<exists>x y w. drawSquare cx cy sz = [FillRect x y w w] \<and> isInteger x \<and> isInteger y \<and> isInteger w
       \<and> shapeCenter (drawSquare cx cy sz) = Some (x + w / 2, y + w / 2)
       \<and> isHalfInteger (x + w / 2) \<and> isHalfInteger (y + w / 2))
   \<and> (\<exists>x y. shapeCenter (drawDiamond cx cy sz) = Some (x, y) \<and> isInteger x \<and> isInteger y)
   \<and> (\<exists>x y. shapeCenter (drawCircle cx cy sz) = Some (x, y) \<and> isHalfInteger x \<and> isHalfInteger y)"
proof -
  have half: "isHalfInteger (real_of_int i + real_of_int j / 2)" for i j
  proof -
    have "(real_of_int i + real_of_int j / 2) * 2 = real_of_int (2 * i + j)" by simp
    then show ?thesis unfolding isHalfInteger_def by (simp only: isInteger_of_int)
  qed
  have sq: "\<exists>x y w. drawSquare cx cy sz = [FillRect x y w w]
       \<and> isInteger x \<and> isInteger y \<and> isInteger w
       \<and> shapeCenter (drawSquare cx cy sz) = Some (x + w / 2, y + w / 2)
       \<and> isHalfInteger (x + w / 2) \<and> isHalfInteger (y + w / 2)"
    by (simp add: drawSquare_def shapeCenter_def isInteger_of_int half Let_def)
  have di: "\<exists>x y. shapeCenter (drawDiamond cx cy sz) = Some (x, y) \<and> isInteger x \<and> isInteger y"
    by (simp add: drawDiamond_def shapeCenter_def isInteger_of_int Let_def)
  have "shapeCenter (drawCircle cx cy sz) =
          Some (real_of_int (mathRound (cx * 2)) / 2, real_of_int (mathRound (cy * 2)) / 2)"
    by (simp add: drawCircle_def shapeCenter_def Let_def)
  moreover have "isHalfInteger (real_of_int i / 2)" for i
    by (simp add: isHalfInteger_def isInteger_of_int)
  ultimately have ci:
    "\<exists>x y. shapeCenter (drawCircle cx cy sz) = Some (x, y) \<and> isHalfInteger x \<and> isHalfInteger y"
    by blast
  from sq di ci show ?thesis by blast
qed

subsection \<open>Glyph selection\<close>

lemma jsRem2_nonneg: "0 \<le> v \<Longrightarrow> jsRem v 2 = v mod 2"
  by (simp add: jsRem_def)

text \<open>
  C4. For every cell \<open>(x, y)\<close> of the grid that is not flagged as an edge, or at an edge
  crispness of 0: a cell whose colour matches the background gets no glyph; a cell whose
  colour matches the prominent colour gets the circle when \<open>(x + y) mod 2 = 0\<close> and the
  square when it is 1; every other cell gets the diamond. No random value is drawn.
\<close>

theorem cellGlyph_deterministic:
  assumes "\<not> isEdge \<or> edgeCrispness params = 0" and "0 \<le> x" and "0 \<le> y"
  shows "cellGlyph params isEdge prominentColor finalColor x y rnd n =
           (if colorMatch finalColor BACKGROUND_COLOR then None
            else if (case prominentColor of None \<Rightarrow> False | Some p \<Rightarrow> colorMatch finalColor p)
                 then (if (x + y) mod 2 = 0 then Some Circle else Some Square)
                 else Some Diamond, n)"
proof -
  have "jsRem (x + y) 2 = (x + y) mod 2" using assms(2,3) by (simp add: jsRem2_nonneg)
  then show ?thesis using assms(1) by (auto simp: cellGlyph_def Let_def)
qed

theorem cellGlyph_deterministic_witness:
  "edgeCrispness \<lparr>stitchPx = 20, paletteMix = 1, dither = 0.3, contrast = 1,
        saturation = 1, edgeCrispness = 0, showGridLines = False\<rparr> = 0
   \<and> (0::int) \<le> 1 \<and> (0::int) \<le> 2
   \<and> cellGlyph \<lparr>stitchPx = 20, paletteMix = 1, dither = 0.3, contrast = 1,
        saturation = 1, edgeCrispness = 0, showGridLines = False\<rparr> True
        (Some (1, 242 / 255, 2 / 255)) (1, 242 / 255, 2 / 255) 1 2 (\<lambda>_. 0) 0 = (Some Square, 0)"
  using cellGlyph_deterministic [of True "\<lparr>stitchPx = 20, paletteMix = 1, dither = 0.3, contrast = 1,
        saturation = 1, edgeCrispness = 0, showGridLines = False\<rparr>" 1 2
        "Some (1, 242 / 255, 2 / 255)" "(1, 242 / 255, 2 / 255)" "\<lambda>_. 0" 0]
  by (simp add: BACKGROUND_COLOR_def ACTIVE_PALETTE_def)

subsection \<open>The empty grid\<close>

lemma backgroundFill_ops: "backgroundFill sz = [SetFillStyle 0 82 176, FillRect 0 0 sz sz]"
  by (simp add: backgroundFill_def BACKGROUND_COLOR_def ACTIVE_PALETTE_def mathRound_def)

lemma gridSize_zero_iff:
  "gridSize params sz = 0 \<longleftrightarrow> 0 \<le> sz \<and> sz < max 4 (min 100 (stitchPx params))"
proof -
  have pos: "0 < max 4 (min 100 (stitchPx params))" by simp
  show ?thesis unfolding gridSize_def Let_def
    using pos by (simp add: floor_eq_iff pos_le_divide_eq pos_divide_less_eq del: max_less_iff_conj)
qed

lemma upto_0_1: "[0..1] = [0, 1::int]"
  by (simp add: upto.simps)

lemma gridSize_wideStitch: "gridSize wideStitch 200 = 2"
  by (simp add: gridSize_def wideStitch_def)

lemma nearestBrandColor_yellow: "nearestBrandColor (1, 242 / 255, 2 / 255) = (1, 242 / 255, 2 / 255)"
  using nearestBrandColor_fixed [of "(1, 242 / 255, 2 / 255)"] by (simp add: ACTIVE_PALETTE_def)

lemma pipelineColor_yellowCells:
  assumes "x \<in> {0, 1}" and "y \<in> {0, 1}"
  shows "pipelineColor wideStitch yellowCells 2 x y = (1, 242 / 255, 2 / 255)"
  using assms
  by (auto simp add: pipelineColor_def getPixelFromImageData_def arrayGet_def yellowCells_def
        wideStitch_def applyPaletteMix_def nearestBrandColor_yellow)

lemma firstPassCell_yellowCells:
  assumes "x \<in> {0, 1}" and "y \<in> {0, 1}"
  shows "firstPassCell wideStitch yellowCells 2 y (row, counts) x
           = (row @ [(1, 242 / 255, 2 / 255)], countColor counts (1, 242 / 255, 2 / 255))"
  using assms pipelineColor_yellowCells [OF assms]
  by (auto simp add: arrayGet_def yellowCells_def Let_def)

lemma countColor_yellow:
  "countColor counts (1, 242 / 255, 2 / 255)
     = mapSet counts (255, 242, 2)
         ((case mapGet counts (255, 242, 2) of None \<Rightarrow> 0 | Some c \<Rightarrow> c) + 1)"
  by (simp add: countColor_def BACKGROUND_COLOR_def ACTIVE_PALETTE_def mathRound_def Let_def)

lemma firstPass_yellowCells:
  "firstPass wideStitch yellowCells 2 2
     = ([[(1, 242 / 255, 2 / 255), (1, 242 / 255, 2 / 255)],
         [(1, 242 / 255, 2 / 255), (1, 242 / 255, 2 / 255)]], [((255, 242, 2), 4)])"
  by (simp add: firstPass_def upto_0_1 firstPassCell_yellowCells countColor_yellow mapGet_def
        del: firstPassCell.simps)

lemma cellGlyph_yellow:
  "cellGlyph wideStitch e (Some (1, 242 / 255, 2 / 255)) (1, 242 / 255, 2 / 255) x y rnd n
     = (Some (if jsRem (x + y) 2 = 0 then Circle else Square), n)"
  by (simp add: cellGlyph_def BACKGROUND_COLOR_def ACTIVE_PALETTE_def wideStitch_def)

lemma renderKnitFrame_yellowCells:
  "renderKnitFrame (\<lambda>i c r. Some yellowCells) rnd img wideStitch 200 =
     ([SetFillStyle 0 82 176, FillRect 0 0 200 200, SetImageSmoothingEnabled False,
       SetFillStyle 255 242 2, BeginPath, Arc 50 50 40 0 (pi * 2), Fill,
       SetFillStyle 255 242 2, FillRect 110 10 80 80,
       SetFillStyle 255 242 2, FillRect 10 110 80 80,
       SetFillStyle 255 242 2, BeginPath, Arc 150 150 40 0 (pi * 2), Fill], None)"
  apply (simp add: renderKnitFrame_def gridSize_wideStitch sampleImage_def firstPass_yellowCells
      backgroundFill_ops)
  apply (simp add: prominentOf_def secondPass_def upto_0_1 cellGlyph_yellow Let_def)
  apply (simp add: wideStitch_def drawCircle_def drawSquare_def mathRound_def jsRem_def)
  done

text \<open>
  C1, as stated: whenever \<open>stitchPx\<close> is set larger than the canvas size, the grid is 0 by
  0 and the frame is the background fill alone. At a canvas of 200 and a \<open>stitchPx\<close> of
  300 the stitch is clamped to 100, the grid is 2 by 2, and four opaque yellow cells are
  drawn as two circles and two squares.
\<close>

theorem zero_grid_counterexample:
  "stitchPx \<lparr>stitchPx = 300, paletteMix = 1, dither = 0, contrast = 1, saturation = 1,
             edgeCrispness = 0, showGridLines = False\<rparr> > 200
   \<and> gridSize \<lparr>stitchPx = 300, paletteMix = 1, dither = 0, contrast = 1, saturation = 1,
             edgeCrispness = 0, showGridLines = False\<rparr> 200 = 2
   \<and> renderKnitFrame
        (\<lambda>i c r. Some [255, 242, 2, 255, 255, 242, 2, 255, 255, 242, 2, 255, 255, 242, 2, 255])
        (\<lambda>n. 0) ()
        \<lparr>stitchPx = 300, paletteMix = 1, dither = 0, contrast = 1, saturation = 1,
             edgeCrispness = 0, showGridLines = False\<rparr> 200
      = ([SetFillStyle 0 82 176, FillRect 0 0 200 200, SetImageSmoothingEnabled False,
          SetFillStyle 255 242 2, BeginPath, Arc 50 50 40 0 (pi * 2), Fill,
          SetFillStyle 255 242 2, FillRect 110 10 80 80,
          SetFillStyle 255 242 2, FillRect 10 110 80 80,
          SetFillStyle 255 242 2, BeginPath, Arc 150 150 40 0 (pi * 2), Fill], None)"
  using gridSize_wideStitch renderKnitFrame_yellowCells [of "\<lambda>n. 0" "()"]
  by (simp add: wideStitch_def yellowCells_def)

text \<open>
  C1, amended: the grid has \<open>\<lfloor>size / clamp(stitchPx, 4, 100)\<rfloor>\<close> columns and as many rows.
  For every source image and parameters, when the stitch clamped to the range from 4 to
  100 is larger than the canvas size (a size that is not negative), the grid is 0 by 0;
  and whenever the grid is 0 by 0, the frame is exactly the background fill, no glyph is
  drawn and no error is raised.
\<close>

theorem zero_grid_background_only:
  "gridSize params sz = \<lfloor>sz / max 4 (min 100 (stitchPx params))\<rfloor>
   \<and> (0 \<le> sz \<and> sz < max 4 (min 100 (stitchPx params)) \<longrightarrow> gridSize params sz = 0)
   \<and> (gridSize params sz = 0 \<longrightarrow>
        renderKnitFrame raster rnd img params sz = ([SetFillStyle 0 82 176, FillRect 0 0 sz sz], None))"
  by (simp add: gridSize_zero_iff renderKnitFrame_def backgroundFill_ops del: max_less_iff_conj)
     (simp add: gridSize_def)

theorem zero_grid_background_only_witness:
  "(0::real) \<le> 50 \<and> (50::real) < max 4 (min 100 (stitchPx \<lparr>stitchPx = 80, paletteMix = 1, dither = 0.3, contrast = 1,
        saturation = 1, edgeCrispness = 0.2, showGridLines = True\<rparr>))
   \<and> gridSize \<lparr>stitchPx = 80, paletteMix = 1, dither = 0.3, contrast = 1,
        saturation = 1, edgeCrispness = 0.2, showGridLines = True\<rparr> 50 = 0
   \<and> renderKnitFrame (\<lambda>i c r. Some []) (\<lambda>_. 0) () \<lparr>stitchPx = 80, paletteMix = 1, dither = 0.3, contrast = 1,
        saturation = 1, edgeCrispness = 0.2, showGridLines = True\<rparr> 50
      = ([SetFillStyle 0 82 176, FillRect 0 0 50 50], None)"
  using zero_grid_background_only [of "\<lparr>stitchPx = 80, paletteMix = 1, dither = 0.3, contrast = 1,
        saturation = 1, edgeCrispness = 0.2, showGridLines = True\<rparr>" 50 "\<lambda>i c r. Some []" "\<lambda>_. 0" "()"]
  by simp

subsection \<open>Edges of a flat grid\<close>

lemma uniform_nth:
  "i < 4 * n \<Longrightarrow> concat (replicate n [r, g, b, a]) ! i = [r, g, b, a] ! (i mod 4)"
proof (induction n arbitrary: i)
  case 0
  then show ?case by simp
next
  case (Suc n)
  show ?case
  proof (cases "i < 4")
    case True
    then have "i = 0 \<or> i = 1 \<or> i = 2 \<or> i = 3" by arith
    then show ?thesis by auto
  next
    case False
    then have "i - 4 < 4 * n" and "(i - 4) mod 4 = i mod 4"
      using Suc.prems by (simp, presburger)
    moreover have "(r # g # b # a # concat (replicate n [r, g, b, a])) ! i
                     = concat (replicate n [r, g, b, a]) ! (i - 4)"
      using False nth_append [of "[r, g, b, a]" "concat (replicate n [r, g, b, a])" i]
      by (simp add: numeral_eq_Suc)
    ultimately show ?thesis using Suc.IH [of "i - 4"] by simp
  qed
qed

lemma uniform_length: "length (concat (replicate n [r, g, b, a])) = 4 * n"
  by (induction n) simp_all

lemma luma_read_uniform:
  fixes k :: int and n r g b a :: nat
  defines "D \<equiv> concat (replicate n [r, g, b, a])"
  shows "(case (arrayGet D (k * 4), arrayGet D (k * 4 + 1), arrayGet D (k * 4 + 2)) of
            (Some r', Some g', Some b') \<Rightarrow>
              Some (luminance (real r' / 255) (real g' / 255) (real b' / 255))
          | _ \<Rightarrow> None) = None
       \<or> (case (arrayGet D (k * 4), arrayGet D (k * 4 + 1), arrayGet D (k * 4 + 2)) of
            (Some r', Some g', Some b') \<Rightarrow>
              Some (luminance (real r' / 255) (real g' / 255) (real b' / 255))
          | _ \<Rightarrow> None) = Some (luminance (real r / 255) (real g / 255) (real b / 255))"
proof (cases "0 \<le> k \<and> k * 4 + 2 < int (4 * n)")
  case True
  define j where "j = nat k"
  have k: "k = int j" using True by (simp add: j_def)
  have nats: "nat (int j * 4) = j * 4" "nat (int j * 4 + 1) = j * 4 + 1"
    "nat (int j * 4 + 2) = j * 4 + 2"
    by (simp_all add: nat_add_distrib nat_mult_distrib)
  have m: "(j * 4) mod 4 = 0" "(j * 4 + 1) mod 4 = 1" "(j * 4 + 2) mod 4 = 2"
    by presburger+
  have lt: "j * 4 < 4 * n" "j * 4 + 1 < 4 * n" "j * 4 + 2 < 4 * n"
    using True k by linarith+
  have e: "D ! (j * 4) = r" "D ! (j * 4 + 1) = g" "D ! (j * 4 + 2) = b"
    using uniform_nth [OF lt(1), of r g b a] uniform_nth [OF lt(2), of r g b a]
      uniform_nth [OF lt(3), of r g b a]
    unfolding m D_def by simp_all
  have rd: "arrayGet D (int j * 4) = Some r" "arrayGet D (int j * 4 + 1) = Some g"
    "arrayGet D (int j * 4 + 2) = Some b"
    unfolding arrayGet_def nats using lt e by (simp_all add: D_def uniform_length)
  show ?thesis unfolding k rd by simp
next
  case False
  then have "arrayGet D (k * 4) = None \<or> arrayGet D (k * 4 + 2) = None"
    by (auto simp: arrayGet_def D_def uniform_length)
  then show ?thesis by (auto split: option.splits)
qed

lemma lumaAt_uniform:
  "lumaAt (concat (replicate n [r, g, b, a])) w h px py = None
   \<or> lumaAt (concat (replicate n [r, g, b, a])) w h px py
       = Some (luminance (real r / 255) (real g / 255) (real b / 255))"
  unfolding lumaAt_def Let_def by (rule luma_read_uniform)

lemma foldl_sobelTap_None: "foldl (sobelTap data w h x y) None taps = None"
  by (induction taps) auto

lemma foldl_sobelTap_uniform:
  fixes n r g b a
  defines "data \<equiv> concat (replicate n [r, g, b, a])"
    and "L \<equiv> luminance (real r / 255) (real g / 255) (real b / 255)"
  shows "foldl (sobelTap data w h x y) (Some (gx, gy)) taps = None
   \<or> foldl (sobelTap data w h x y) (Some (gx, gy)) taps
       = Some (gx + L * sum_list (map (\<lambda>(ky, kx). sobelX ! kernelIdx ky kx) taps),
               gy + L * sum_list (map (\<lambda>(ky, kx). sobelY ! kernelIdx ky kx) taps))"
proof (induction taps arbitrary: gx gy)
  case Nil
  then show ?case by simp
next
  case (Cons t taps)
  obtain ky kx where t: "t = (ky, kx)" by (cases t)
  from lumaAt_uniform [of n r g b a w h "x + kx" "y + ky"]
  show ?case
  proof
    assume "lumaAt (concat (replicate n [r, g, b, a])) w h (x + kx) (y + ky) = None"
    then show ?thesis by (simp add: t data_def foldl_sobelTap_None)
  next
    assume "lumaAt (concat (replicate n [r, g, b, a])) w h (x + kx) (y + ky)
              = Some (luminance (real r / 255) (real g / 255) (real b / 255))"
    then have step: "sobelTap data w h x y (Some (gx, gy)) (ky, kx)
        = Some (gx + L * sobelX ! kernelIdx ky kx,
                gy + L * sobelY ! kernelIdx ky kx)"
      by (simp add: t data_def L_def Let_def)
    show ?thesis
      using Cons.IH [of "gx + L * sobelX ! kernelIdx ky kx"
                        "gy + L * sobelY ! kernelIdx ky kx"]
      by (simp add: step t distrib_left add.assoc del: sobelTap.simps)
  qed
qed

lemma kernelTaps_list:
  "kernelTaps = [(-1, -1), (-1, 0), (-1, 1), (0, -1), (0, 0), (0, 1), (1, -1), (1, 0), (1, 1)]"
  by (simp add: kernelTaps_def upto.simps)

lemma kernel_sums:
  "sum_list (map (\<lambda>(ky, kx). sobelX ! kernelIdx ky kx) kernelTaps) = 0"
  "sum_list (map (\<lambda>(ky, kx). sobelY ! kernelIdx ky kx) kernelTaps) = 0"
  by (simp_all add: kernelTaps_list sobelX_def sobelY_def kernelIdx_def)

lemma edgeCell_uniform: "edgeCell (concat (replicate n [r, g, b, a])) w h x y = False"
  using foldl_sobelTap_uniform [of n r g b a w h x y 0 0 kernelTaps]
  by (auto simp: edgeCell_def kernel_sums Let_def)

text \<open>
  C7. For every width and height, and every grid of pixel data whose cells all carry the
  same RGBA value, the edge map of \<open>detectEdges\<close> has \<open>height\<close> rows of \<open>width\<close> entries
  and every entry is false.
\<close>

theorem detectEdges_uniform:
  "detectEdges (concat (replicate n [r, g, b, a])) w h = replicate (nat h) (replicate (nat w) False)"
  by (simp add: detectEdges_def edgeCell_uniform map_replicate_const)

text \<open>A black cell beside a white one: both are edges.\<close>

lemma lumaAt_two_cells: "lumaAt [0, 0, 0, 255, 255, 255, 255, 255] 2 1 px py = Some (if px \<le> 0 then 0 else 1)"
  by (auto simp add: lumaAt_def arrayGet_def luminance_def Let_def max_def min_def)

lemma detectEdges_two_cells: "detectEdges [0, 0, 0, 255, 255, 255, 255, 255] 2 1 = [[True, True]]"
proof -
  have "0.15 < sqrt 16" by (rule real_less_rsqrt) (simp add: power2_eq_square)
  then show ?thesis
    by (simp add: detectEdges_def upto.simps edgeCell_def kernelTaps_list lumaAt_two_cells kernelIdx_def sobelX_def sobelY_def Let_def)
qed

subsection \<open>The prominent colour\<close>

lemma firstIndex_append: "k \<in> set ks \<Longrightarrow> firstIndex (ks @ ys) k = firstIndex ks k"
  by (induction ks) auto

lemma firstIndex_snoc_new: "k \<notin> set ks \<Longrightarrow> firstIndex (ks @ [k]) k = length ks"
  by (induction ks) auto

lemma firstIndex_less: "k \<in> set ks \<Longrightarrow> firstIndex ks k < length ks"
  by (induction ks) auto

lemma map_fst_mapSet:
  "map fst (mapSet m k v) = (if k \<in> fst ` set m then map fst m else map fst m @ [k])"
  by (induction m) force+

lemma map_of_mapSet: "map_of (mapSet m k v) = (map_of m)(k \<mapsto> v)"
  by (induction m) auto

lemma keys_countKey: "fst ` set (countKey m k) = insert k (fst ` set m)"
proof -
  have "set (map fst (countKey m k)) = insert k (set (map fst m))"
    unfolding countKey_def map_fst_mapSet by auto
  then show ?thesis by simp
qed

lemma keys_foldl_countKey: "fst ` set (foldl countKey [] ks) = set ks"
  by (induction ks rule: rev_induct) (simp_all add: keys_countKey)

lemma order_foldl_countKey_snoc:
  "map fst (foldl countKey [] (ks @ [x])) =
     (if x \<in> set ks then map fst (foldl countKey [] ks) else map fst (foldl countKey [] ks) @ [x])"
  by (simp add: countKey_def map_fst_mapSet keys_foldl_countKey)

lemma distinct_foldl_countKey: "distinct (map fst (foldl countKey [] ks))"
proof (induction ks rule: rev_induct)
  case Nil
  then show ?case by simp
next
  case (snoc x ks)
  have "set (map fst (foldl countKey [] ks)) = set ks"
    using keys_foldl_countKey [of ks] by simp
  with snoc show ?case unfolding order_foldl_countKey_snoc by auto
qed

lemma map_of_foldl_countKey:
  "map_of (foldl countKey [] ks) k = (if k \<in> set ks then Some (count_list ks k) else None)"
proof (induction ks rule: rev_induct)
  case Nil
  then show ?case by simp
next
  case (snoc x ks)
  then show ?case
    by (auto simp: countKey_def map_of_mapSet mapGet_def)
qed

lemma entry_foldl_countKey:
  assumes "(k, c) \<in> set (foldl countKey [] ks)"
  shows "k \<in> set ks \<and> c = count_list ks k"
proof -
  have "map_of (foldl countKey [] ks) k = Some c"
    using assms distinct_foldl_countKey [of ks] by simp
  then show ?thesis by (simp add: map_of_foldl_countKey split: if_splits)
qed

lemma order_foldl_countKey:
  "map fst (foldl countKey [] ks) = pre @ k # post \<Longrightarrow> k' \<in> set post \<Longrightarrow>
   firstIndex ks k < firstIndex ks k'"
proof (induction ks arbitrary: pre post rule: rev_induct)
  case Nil
  then show ?case by simp
next
  case (snoc x ks)
  have keys: "set (map fst (foldl countKey [] ks)) = set ks"
    using keys_foldl_countKey [of ks] by simp
  show ?case
  proof (cases "x \<in> set ks")
    case True
    then have eq: "map fst (foldl countKey [] ks) = pre @ k # post"
      using snoc.prems(1) unfolding order_foldl_countKey_snoc by simp
    then have "k \<in> set ks" "k' \<in> set ks" using keys snoc.prems(2) by auto
    then show ?thesis using snoc.IH [OF eq snoc.prems(2)] by (simp add: firstIndex_append)
  next
    case False
    then have eq: "map fst (foldl countKey [] ks) @ [x] = pre @ k # post"
      using snoc.prems(1) unfolding order_foldl_countKey_snoc by simp
    from snoc.prems(2) have "post \<noteq> []" by auto
    then obtain post' where post: "post = post' @ [x]"
      and eq': "map fst (foldl countKey [] ks) = pre @ k # post'"
      using eq by (cases post rule: rev_cases) auto
    have kin: "k \<in> set ks" using keys eq' by auto
    show ?thesis
    proof (cases "k' \<in> set post'")
      case True
      then have "k' \<in> set ks" using keys eq' by auto
      then show ?thesis using snoc.IH [OF eq' True] kin by (simp add: firstIndex_append)
    next
      case False
      then have "k' = x" using snoc.prems(2) post by auto
      then show ?thesis using kin \<open>x \<notin> set ks\<close> firstIndex_less [OF kin]
        by (simp add: firstIndex_append firstIndex_snoc_new)
    qed
  qed
qed

lemma prominent_fold:
  "foldl prominentStep (b, m) es = (b', m') \<Longrightarrow>
     (b' = b \<and> m' = m \<and> (\<forall>e\<in>set es. snd e \<le> m))
     \<or> (\<exists>pre k c post. es = pre @ (k, c) # post \<and> b' = Some (keyColor k) \<and> m' = c \<and> m < c
          \<and> (\<forall>e\<in>set pre. snd e < c) \<and> (\<forall>e\<in>set post. snd e \<le> c))"
proof (induction es arbitrary: b m)
  case Nil
  then show ?case by simp
next
  case (Cons e es)
  obtain k c where e: "e = (k, c)" by (cases e)
  obtain r g bl where k: "k = (r, g, bl)" by (cases k)
  show ?case
  proof (cases "m < c")
    case True
    then have run: "foldl prominentStep (Some (keyColor k), c) es = (b', m')"
      using Cons.prems by (simp add: e k)
    from Cons.IH [OF run] show ?thesis
    proof
      assume "b' = Some (keyColor k) \<and> m' = c \<and> (\<forall>e\<in>set es. snd e \<le> c)"
      then have "e # es = [] @ (k, c) # es \<and> b' = Some (keyColor k) \<and> m' = c \<and> m < c
          \<and> (\<forall>e\<in>set []. snd e < c) \<and> (\<forall>e\<in>set es. snd e \<le> c)"
        using True e by simp
      then show ?thesis by blast
    next
      assume "\<exists>pre k' c' post. es = pre @ (k', c') # post \<and> b' = Some (keyColor k') \<and> m' = c'
          \<and> c < c' \<and> (\<forall>e\<in>set pre. snd e < c') \<and> (\<forall>e\<in>set post. snd e \<le> c')"
      then obtain pre k' c' post where h: "es = pre @ (k', c') # post" "b' = Some (keyColor k')"
        "m' = c'" "c < c'" "\<forall>e\<in>set pre. snd e < c'" "\<forall>e\<in>set post. snd e \<le> c'"
        by blast
      then have "e # es = (e # pre) @ (k', c') # post \<and> b' = Some (keyColor k') \<and> m' = c'
          \<and> m < c' \<and> (\<forall>e\<in>set (e # pre). snd e < c') \<and> (\<forall>e\<in>set post. snd e \<le> c')"
        using True e by auto
      then show ?thesis by blast
    qed
  next
    case False
    then have run: "foldl prominentStep (b, m) es = (b', m')"
      using Cons.prems by (simp add: e k)
    from Cons.IH [OF run] show ?thesis
    proof
      assume "b' = b \<and> m' = m \<and> (\<forall>e\<in>set es. snd e \<le> m)"
      then show ?thesis using False e by auto
    next
      assume "\<exists>pre k' c' post. es = pre @ (k', c') # post \<and> b' = Some (keyColor k') \<and> m' = c'
          \<and> m < c' \<and> (\<forall>e\<in>set pre. snd e < c') \<and> (\<forall>e\<in>set post. snd e \<le> c')"
      then obtain pre k' c' post where h: "es = pre @ (k', c') # post" "b' = Some (keyColor k')"
        "m' = c'" "m < c'" "\<forall>e\<in>set pre. snd e < c'" "\<forall>e\<in>set post. snd e \<le> c'"
        by blast
      then have "e # es = (e # pre) @ (k', c') # post \<and> b' = Some (keyColor k') \<and> m' = c'
          \<and> m < c' \<and> (\<forall>e\<in>set (e # pre). snd e < c') \<and> (\<forall>e\<in>set post. snd e \<le> c')"
        using False e by auto
      then show ?thesis by blast
    qed
  qed
qed


lemma palette_cases:
  "c \<in> set ACTIVE_PALETTE \<longleftrightarrow> c = paletteBlue \<or> c = paletteNavy \<or> c = paletteYellow"
  by (auto simp: ACTIVE_PALETTE_entries)

lemma BACKGROUND_COLOR_blue: "BACKGROUND_COLOR = paletteBlue"
  by (simp add: BACKGROUND_COLOR_def ACTIVE_PALETTE_entries)

lemma colorMatch_background:
  "c \<in> set ACTIVE_PALETTE \<Longrightarrow> colorMatch c BACKGROUND_COLOR \<longleftrightarrow> c = BACKGROUND_COLOR"
  unfolding palette_cases BACKGROUND_COLOR_blue
  by (auto simp: paletteBlue_def paletteNavy_def paletteYellow_def)

lemma keyColor_colorKeyOf: "c \<in> set ACTIVE_PALETTE \<Longrightarrow> keyColor (colorKeyOf c) = c"
  unfolding palette_cases
  by (auto simp: paletteBlue_def paletteNavy_def paletteYellow_def mathRound_def)

lemma colorKeyOf_inj:
  assumes "c \<in> set ACTIVE_PALETTE" and "d \<in> set ACTIVE_PALETTE"
    and "colorKeyOf c = colorKeyOf d"
  shows "c = d"
proof -
  have "keyColor (colorKeyOf c) = keyColor (colorKeyOf d)" by (simp only: assms(3))
  then show ?thesis
    by (simp only: keyColor_colorKeyOf [OF assms(1)] keyColor_colorKeyOf [OF assms(2)])
qed

lemma countColor_countKey:
  "countColor m c = (if \<not> colorMatch c BACKGROUND_COLOR then countKey m (colorKeyOf c) else m)"
  by (simp add: countColor_def countKey_def Let_def)

lemma foldl_countColor_keys:
  "foldl countColor m cs
     = foldl countKey m (map colorKeyOf (filter (\<lambda>c. \<not> colorMatch c BACKGROUND_COLOR) cs))"
  by (induction cs arbitrary: m) (simp_all add: countColor_countKey)

lemma count_list_map_filter:
  assumes "P q" and "\<forall>c\<in>set cs. f c = f q \<longrightarrow> c = q"
  shows "count_list (map f (filter P cs)) (f q) = count_list cs q"
  using assms by (induction cs) auto

lemma firstIndex_map_filter:
  assumes "P p" and "P q"
    and "\<forall>c\<in>set cs. (f c = f p \<longrightarrow> c = p) \<and> (f c = f q \<longrightarrow> c = q)"
    and "firstIndex (map f (filter P cs)) (f p) < firstIndex (map f (filter P cs)) (f q)"
  shows "firstIndex cs p < firstIndex cs q"
  using assms by (induction cs) (auto split: if_splits)


lemma prominentColorOf_all_background:
  assumes "\<forall>c\<in>set cells. colorMatch c BACKGROUND_COLOR"
  shows "prominentColorOf cells = None"
proof -
  have "filter (\<lambda>c. \<not> colorMatch c BACKGROUND_COLOR) cells = []"
    using assms by (simp add: filter_empty_conv)
  then show ?thesis
    by (simp add: prominentColorOf_def foldl_countColor_keys prominentOf_def)
qed

lemma prominentColorOf_some:
  assumes sub: "set cells \<subseteq> set ACTIVE_PALETTE"
    and c0: "c0 \<in> set cells" "\<not> colorMatch c0 BACKGROUND_COLOR"
  shows "\<exists>p. prominentColorOf cells = Some p \<and> p \<in> set cells
           \<and> \<not> colorMatch p BACKGROUND_COLOR
           \<and> (\<forall>q\<in>set cells. \<not> colorMatch q BACKGROUND_COLOR \<longrightarrow>
                 count_list cells q \<le> count_list cells p
                 \<and> (count_list cells q = count_list cells p \<longrightarrow>
                      firstIndex cells p \<le> firstIndex cells q))"
proof -
  define P where "P = (\<lambda>c. \<not> colorMatch c BACKGROUND_COLOR)"
  define ks where "ks = map colorKeyOf (filter P cells)"
  define m where "m = foldl countKey [] ks"
  have inj: "colorKeyOf c = colorKeyOf d \<longrightarrow> c = d" if "c \<in> set cells" "d \<in> set cells" for c d
    using colorKeyOf_inj [of c d] that sub by blast
  have cnt: "count_list ks (colorKeyOf q) = count_list cells q" if "q \<in> set cells" "P q" for q
    unfolding ks_def using that inj by (intro count_list_map_filter) auto
  have entry: "(colorKeyOf q, count_list cells q) \<in> set m" if "q \<in> set cells" "P q" for q
  proof -
    have "colorKeyOf q \<in> set ks" using that by (auto simp: ks_def)
    then have "map_of m (colorKeyOf q) = Some (count_list ks (colorKeyOf q))"
      by (simp add: m_def map_of_foldl_countKey)
    then show ?thesis using cnt [OF that] by (auto dest: map_of_SomeD)
  qed
  have pos: "0 < count_list cells q" if "q \<in> set cells" for q
    using that count_list_0_iff [of cells q] by (cases "count_list cells q") auto
  have res: "prominentColorOf cells = fst (foldl prominentStep (None, 0) m)"
    by (simp add: prominentColorOf_def prominentOf_def foldl_countColor_keys m_def ks_def P_def)
  obtain b' m' where run: "foldl prominentStep (None, 0) m = (b', m')"
    by (cases "foldl prominentStep (None, 0) m")
  from prominent_fold [OF run] show ?thesis
  proof
    assume "b' = None \<and> m' = 0 \<and> (\<forall>e\<in>set m. snd e \<le> 0)"
    then have "count_list cells c0 \<le> 0"
      using entry [of c0] c0 by (auto simp: P_def)
    then show ?thesis using pos [OF c0(1)] by simp
  next
    assume "\<exists>pre k c post. m = pre @ (k, c) # post \<and> b' = Some (keyColor k) \<and> m' = c \<and> 0 < c
          \<and> (\<forall>e\<in>set pre. snd e < c) \<and> (\<forall>e\<in>set post. snd e \<le> c)"
    then obtain pre k c post where h: "m = pre @ (k, c) # post" "b' = Some (keyColor k)"
      "\<forall>e\<in>set pre. snd e < c" "\<forall>e\<in>set post. snd e \<le> c"
      by blast
    have "(k, c) \<in> set m" using h(1) by simp
    then have k: "k \<in> set ks" "c = count_list ks k"
      using entry_foldl_countKey [of k c ks] by (simp_all add: m_def)
    then obtain p where p: "p \<in> set cells" "P p" "k = colorKeyOf p"
      by (auto simp: ks_def)
    have pal: "p \<in> set ACTIVE_PALETTE" using p(1) sub by blast
    have kc: "keyColor k = p" using keyColor_colorKeyOf [OF pal] p(3) by simp
    have c: "c = count_list cells p" using k(2) cnt [OF p(1,2)] p(3) by simp
    have keys: "map fst m = map fst pre @ k # map fst post" using h(1) by simp
    have dist: "distinct (map fst m)" by (simp add: m_def distinct_foldl_countKey)
    have main: "count_list cells q \<le> count_list cells p
                 \<and> (count_list cells q = count_list cells p \<longrightarrow>
                      firstIndex cells p \<le> firstIndex cells q)"
      if q: "q \<in> set cells" "P q" for q
    proof -
      from entry [OF q] h(1)
      consider "(colorKeyOf q, count_list cells q) \<in> set pre"
        | "(colorKeyOf q, count_list cells q) = (k, c)"
        | "(colorKeyOf q, count_list cells q) \<in> set post"
        by auto
      then show ?thesis
      proof cases
        case 1
        then show ?thesis using h(3) c by force
      next
        case 2
        then have "q = p" using inj [OF q(1) p(1)] p(3) by simp
        then show ?thesis by simp
      next
        case 3
        then have le: "count_list cells q \<le> count_list cells p" using h(4) c by force
        from 3 have "colorKeyOf q \<in> set (map fst post)" by force
        then have "firstIndex ks k < firstIndex ks (colorKeyOf q)"
          using order_foldl_countKey [of ks "map fst pre" k "map fst post" "colorKeyOf q"] keys
          by (simp add: m_def)
        then have "firstIndex cells p < firstIndex cells q"
          unfolding ks_def p(3)
          using inj p(1,2) q by (intro firstIndex_map_filter [of P p q cells colorKeyOf]) auto
        with le show ?thesis by simp
      qed
    qed
    have "prominentColorOf cells = Some p" using res run h(2) kc by simp
    then show ?thesis using p(1,2) main unfolding P_def by blast
  qed
qed


text \<open>
  C3. For every grid of finalized cell colours (colours of the active palette, in the
  order of the cells): the analysis returns nothing exactly when every cell matches the
  background within the tolerance of 0.01 per channel; a colour \<open>p\<close> that it returns is
  the colour of a cell that does not match the background, no such colour occurs in more
  cells than \<open>p\<close>, and one that occurs in as many is first met no earlier than \<open>p\<close>. So
  on a grid where \<open>A\<close> fills 10 cells, \<open>B\<close> 3 and the background the rest, it returns \<open>A\<close>.
\<close>

theorem prominentColorOf_spec:
  assumes "set cells \<subseteq> set ACTIVE_PALETTE"
  shows "(prominentColorOf cells = None \<longleftrightarrow> (\<forall>c\<in>set cells. colorMatch c BACKGROUND_COLOR))
     \<and> (\<forall>p. prominentColorOf cells = Some p \<longrightarrow>
           p \<in> set cells \<and> \<not> colorMatch p BACKGROUND_COLOR
           \<and> (\<forall>q\<in>set cells. \<not> colorMatch q BACKGROUND_COLOR \<longrightarrow>
                 count_list cells q \<le> count_list cells p
                 \<and> (count_list cells q = count_list cells p \<longrightarrow>
                      firstIndex cells p \<le> firstIndex cells q)))
     \<and> (\<forall>A B. \<not> colorMatch A BACKGROUND_COLOR \<and> \<not> colorMatch B BACKGROUND_COLOR
           \<and> count_list cells A = 10 \<and> count_list cells B = 3
           \<and> (\<forall>c\<in>set cells. c = A \<or> c = B \<or> colorMatch c BACKGROUND_COLOR) \<longrightarrow>
           prominentColorOf cells = Some A)"
proof (intro conjI allI impI)
  show "prominentColorOf cells = None \<longleftrightarrow> (\<forall>c\<in>set cells. colorMatch c BACKGROUND_COLOR)"
    using prominentColorOf_all_background [of cells] prominentColorOf_some [OF assms]
    by (metis option.distinct(1))
next
  fix p
  assume p: "prominentColorOf cells = Some p"
  then have "\<not> (\<forall>c\<in>set cells. colorMatch c BACKGROUND_COLOR)"
    using prominentColorOf_all_background [of cells] by auto
  then obtain c0 where "c0 \<in> set cells" "\<not> colorMatch c0 BACKGROUND_COLOR" by blast
  from prominentColorOf_some [OF assms this] p
  have all: "p \<in> set cells \<and> \<not> colorMatch p BACKGROUND_COLOR
           \<and> (\<forall>q\<in>set cells. \<not> colorMatch q BACKGROUND_COLOR \<longrightarrow>
                 count_list cells q \<le> count_list cells p
                 \<and> (count_list cells q = count_list cells p \<longrightarrow>
                      firstIndex cells p \<le> firstIndex cells q))"
    by auto
  from all show "p \<in> set cells" by blast
  from all show "\<not> colorMatch p BACKGROUND_COLOR" by blast
  from all show "\<forall>q\<in>set cells. \<not> colorMatch q BACKGROUND_COLOR \<longrightarrow>
                 count_list cells q \<le> count_list cells p
                 \<and> (count_list cells q = count_list cells p \<longrightarrow>
                      firstIndex cells p \<le> firstIndex cells q)" by blast
next
  fix A B
  assume h: "\<not> colorMatch A BACKGROUND_COLOR \<and> \<not> colorMatch B BACKGROUND_COLOR
           \<and> count_list cells A = 10 \<and> count_list cells B = 3
           \<and> (\<forall>c\<in>set cells. c = A \<or> c = B \<or> colorMatch c BACKGROUND_COLOR)"
  then have A: "A \<in> set cells" using count_list_0_iff [of cells A] by auto
  from prominentColorOf_some [OF assms A] h
  obtain p where p: "prominentColorOf cells = Some p" "p \<in> set cells"
    "\<not> colorMatch p BACKGROUND_COLOR"
    "\<forall>q\<in>set cells. \<not> colorMatch q BACKGROUND_COLOR \<longrightarrow> count_list cells q \<le> count_list cells p"
    by blast
  have "p = A \<or> p = B" using p(2,3) h by blast
  moreover have "p \<noteq> B" using p(4) A h by auto
  ultimately show "prominentColorOf cells = Some A" using p(1) by simp
qed

theorem prominentColorOf_spec_witness:
  "prominentColorOf
     (replicate 10 (1, 242 / 255, 2 / 255) @ replicate 3 (1 / 255, 36 / 255, 100 / 255)
      @ replicate 2 (0, 82 / 255, 176 / 255)) = Some (1, 242 / 255, 2 / 255)"
proof -
  let ?cells = "replicate 10 (1, 242 / 255, 2 / 255) @ replicate 3 (1 / 255, 36 / 255, 100 / 255)
      @ replicate 2 (0::real, 82 / 255 :: real, 176 / 255 :: real)"
  have sub: "set ?cells \<subseteq> set ACTIVE_PALETTE" by (simp add: ACTIVE_PALETTE_def)
  have h: "\<not> colorMatch (1, 242 / 255, 2 / 255) BACKGROUND_COLOR
           \<and> \<not> colorMatch (1 / 255, 36 / 255, 100 / 255) BACKGROUND_COLOR
           \<and> count_list ?cells (1, 242 / 255, 2 / 255) = 10
           \<and> count_list ?cells (1 / 255, 36 / 255, 100 / 255) = 3
           \<and> (\<forall>c\<in>set ?cells. c = (1, 242 / 255, 2 / 255) \<or> c = (1 / 255, 36 / 255, 100 / 255)
                 \<or> colorMatch c BACKGROUND_COLOR)"
    by (simp add: BACKGROUND_COLOR_def ACTIVE_PALETTE_def numeral_eq_Suc)
  show ?thesis using prominentColorOf_spec [OF sub] h by blast
qed

text \<open>A tie goes to the colour met first: navy and yellow, two cells each.\<close>

lemma prominentColorOf_tie: "prominentColorOf [(1 / 255, 36 / 255, 100 / 255), (1, 242 / 255, 2 / 255), (0, 82 / 255, 176 / 255),
     (1, 242 / 255, 2 / 255), (1 / 255, 36 / 255, 100 / 255)] = Some (1 / 255, 36 / 255, 100 / 255)"
  by (simp add: prominentColorOf_def countColor_def BACKGROUND_COLOR_def ACTIVE_PALETTE_def
        mathRound_def mapGet_def prominentOf_def Let_def)

text \<open>
  The first pass of \<open>renderKnitFrame\<close> hands such a grid to the analysis: its counts are
  those of the colours it stores, which are palette colours.
\<close>

lemma colorMatch_refl: "colorMatch c c"
  by (cases c) simp

lemma firstPassCell_cellColor:
  "firstPassCell params data cols y (row, counts) x
     = (row @ [cellColor params data cols x y], countColor counts (cellColor params data cols x y))"
  by (simp add: cellColor_def Let_def countColor_def colorMatch_refl)

lemma foldl_firstPassCell:
  "foldl (firstPassCell params data cols y) (row, counts) xs
     = (row @ map (\<lambda>x. cellColor params data cols x y) xs,
        foldl countColor counts (map (\<lambda>x. cellColor params data cols x y) xs))"
  by (induction xs arbitrary: row counts)
     (simp_all add: firstPassCell_cellColor del: firstPassCell.simps)

lemma foldl_firstPassRow:
  "foldl (firstPassRow params data cols) (cc, counts) ys
     = (cc @ map (\<lambda>y. map (\<lambda>x. cellColor params data cols x y) [0..cols - 1]) ys,
        foldl countColor counts
          (concat (map (\<lambda>y. map (\<lambda>x. cellColor params data cols x y) [0..cols - 1]) ys)))"
  by (induction ys arbitrary: cc counts) (simp_all add: foldl_firstPassCell)

lemma firstPass_cellColor:
  "firstPass params data cols rows
     = (map (\<lambda>y. map (\<lambda>x. cellColor params data cols x y) [0..cols - 1]) [0..rows - 1],
        foldl countColor []
          (concat (map (\<lambda>y. map (\<lambda>x. cellColor params data cols x y) [0..cols - 1])
                     [0..rows - 1])))"
  by (simp add: firstPass_def foldl_firstPassRow)

lemma cellColor_palette: "cellColor params data cols x y \<in> set ACTIVE_PALETTE"
proof -
  have "ACTIVE_PALETTE ! 0 \<in> set ACTIVE_PALETTE" by (simp add: ACTIVE_PALETTE_def)
  then show ?thesis
    by (auto simp: cellColor_def BACKGROUND_COLOR_def pipelineColor_def Let_def
          nearestBrandColor_member split: option.splits prod.splits)
qed

lemma firstPass_prominent:
  assumes "firstPass params data cols rows = (cellColors, colorCounts)"
  shows "prominentOf colorCounts = prominentColorOf (concat cellColors)
         \<and> set (concat cellColors) \<subseteq> set ACTIVE_PALETTE
         \<and> length cellColors = nat rows \<and> (\<forall>row\<in>set cellColors. length row = nat cols)"
  using assms unfolding firstPass_cellColor
  by (auto simp: prominentColorOf_def cellColor_palette)

end
